theory Spec2Isabelle
  imports Main "HOL-Library.Sublist"
begin

section \<open>Data model\<close>

text \<open>
  The configuration types (\<open>Config\<close>, \<open>Application\<close>, \<open>Manifest\<close>, \<open>Filters\<close>) are
  declared outside the files at hand; the records below carry exactly the fields that
  \<^verbatim>\<open>flow/process.go\<close> and its earlier variant (the unnamed source file, which declares
  the same package and the same functions) read. Go strings are byte sequences and are
  modelled as \<open>string\<close>; \<^verbatim>\<open>strings.HasPrefix(s, p)\<close> is \<open>prefix p s\<close>.
\<close>

record Filters =
  IncludePrefixes :: "string list"
  ExcludePrefixes :: "string list"

record Manifest =
  Env :: string
  Files :: "string list"
  Filters :: Filters
  BaseBranch :: string
  CommitWithoutPR :: bool
  ShowSourceOwner :: bool
  ShowSourceName :: bool
  HideSourceName :: bool
  HideSourceReleaseDesc :: bool
  PRBody :: string
  Labels :: "string list"

record Application =
  Name :: string
  Image :: string
  SourceOwner :: string
  SourceName :: string
  ManifestOwner :: string
  ManifestName :: string
  ManifestBaseBranch :: string
  Manifests :: "Manifest list"
  RewriteVersion :: bool
  RewriteNewTag :: bool
  AdditionalRewriteKeys :: "string list"
  AdditionalRewritePrefix :: "string list"

record GitAuthor =
  GitAuthorName :: string
  GitAuthorEmail :: string

record Config =
  ApplicationList :: "Application list"
  DefaultBranch :: string
  DefaultManifestOwner :: string
  DefaultManifestName :: string
  GitAuthor :: GitAuthor

text \<open>
  The package \<^verbatim>\<open>gitbot\<close>: \<open>Repo\<close>, \<open>Author\<close>, one recorded \<open>Change\<close> (the three fields
  that \<^verbatim>\<open>getTree\<close> reads) and the \<open>Release\<close> itself. The fields of \<open>Repo\<close> and
  \<open>Author\<close> are prefixed, since \<open>SourceOwner\<close> and \<open>Name\<close> are fields of
  \<open>Application\<close> already.
\<close>

record Repo =
  RepoSourceOwner :: string
  RepoSourceRepo :: string
  RepoBaseBranch :: string
  RepoCommitBranch :: string

record Author =
  AuthorName :: string
  AuthorEmail :: string

record Change =
  filePath :: string
  regexText :: string
  changedText :: string

record Release =
  Repo :: Repo
  Author :: Author
  Message :: string
  Body :: string
  ReleaseLabels :: "string list"
  Changes :: "Change list"
  changedContentMap :: "(string \<times> string) list"

text \<open>A Go \<^verbatim>\<open>error\<close> value: a message, or the list of errors that \<^verbatim>\<open>retry.Do\<close> returns.\<close>

datatype error = ErrorString string | RetryError "error list"

record PullRequest =
  env :: string
  url :: string
  err :: "error option"

type_synonym PullRequests = "PullRequest list"


section \<open>The manifest filter\<close>

text \<open>
  The two loops of \<^verbatim>\<open>shouldProcess\<close> have the same shape: return at the first prefix
  of the list that the version starts with.
\<close>

primrec anyHasPrefix :: "string \<Rightarrow> string list \<Rightarrow> bool" where
  "anyHasPrefix version [] = False"
| "anyHasPrefix version (p # ps) = (if prefix p version then True else anyHasPrefix version ps)"

definition shouldProcess :: "Manifest \<Rightarrow> string \<Rightarrow> bool" where
  "shouldProcess m version =
     (if version = [] then False
      else if version = ''latest'' then False
      else if anyHasPrefix version (ExcludePrefixes (Filters m)) then False
      else if length (IncludePrefixes (Filters m)) = 0 then True
      else if anyHasPrefix version (IncludePrefixes (Filters m)) then True
      else False)"


section \<open>Branch names and commit messages\<close>

text \<open>\<^verbatim>\<open>flow/process.go\<close>: the prefix is \<open>rollout/\<close>, the source name is hidden on request.\<close>

definition getBranchName :: "Application \<Rightarrow> Manifest \<Rightarrow> string \<Rightarrow> string" where
  "getBranchName a m version =
     (let branch = ''rollout/'';
          branch = branch @ Env m;
          repo = SourceName a;
          repo = (if ShowSourceOwner m then SourceOwner a @ ''-'' @ repo else repo);
          branch = (if \<not> HideSourceName m then branch @ ''-'' @ repo else branch)
      in branch @ ''-'' @ version)"

definition getCommitMessage :: "Application \<Rightarrow> Manifest \<Rightarrow> string \<Rightarrow> string" where
  "getCommitMessage a m version =
     (let message = ''Rollout'';
          message = message @ '' '' @ Env m;
          repo = SourceName a;
          repo = (if ShowSourceOwner m then SourceOwner a @ ''/'' @ repo else repo);
          message = (if \<not> HideSourceName m then message @ '' '' @ repo else message)
      in message @ '' '' @ version)"

text \<open>The earlier variant: the prefix is \<open>release/\<close>, the source name is shown on request.\<close>

definition getBranchName_v0 :: "Application \<Rightarrow> Manifest \<Rightarrow> string \<Rightarrow> string" where
  "getBranchName_v0 a m version =
     (let branch = ''release/'';
          branch = branch @ Env m;
          repo = SourceName a;
          repo = (if ShowSourceOwner m then SourceOwner a @ ''-'' @ repo else repo);
          branch = (if ShowSourceName m then branch @ ''-'' @ repo else branch)
      in branch @ ''-'' @ version)"

definition getCommitMessage_v0 :: "Application \<Rightarrow> Manifest \<Rightarrow> string \<Rightarrow> string" where
  "getCommitMessage_v0 a m version =
     (let message = ''Release'';
          message = message @ '' '' @ Env m;
          repo = SourceName a;
          repo = (if ShowSourceOwner m then SourceOwner a @ ''/'' @ repo else repo);
          message = (if ShowSourceName m then message @ '' '' @ repo else message)
      in message @ '' '' @ version)"


section \<open>The release descriptor\<close>

text \<open>
  Modelled from the spec: \<^verbatim>\<open>gitbot.NewRelease\<close> is not among the files at hand. The
  release descriptor holds the repository coordinates, the author, the commit message,
  the PR body and the labels it is given, and no change yet.
\<close>

definition NewRelease :: "Repo \<Rightarrow> Author \<Rightarrow> string \<Rightarrow> string \<Rightarrow> string list \<Rightarrow> Release" where
  "NewRelease repo author message body labels =
     \<lparr>Repo = repo, Author = author, Message = message, Body = body,
      ReleaseLabels = labels, Changes = [], changedContentMap = []\<rparr>"

text \<open>
  \<^verbatim>\<open>newRelease\<close> of \<^verbatim>\<open>flow/process.go\<close>. The package variable \<^verbatim>\<open>cfg\<close> is the first
  argument.
\<close>

definition newRelease :: "Config \<Rightarrow> Application \<Rightarrow> Manifest \<Rightarrow> string \<Rightarrow> Release" where
  "newRelease cfg app manifest version =
     (let branchName = getBranchName app manifest version;
          message = getCommitMessage app manifest version;
          baseBranch = ManifestBaseBranch app;
          baseBranch = (if baseBranch = [] then DefaultBranch cfg else baseBranch);
          baseBranch = (if baseBranch = [] then ''master'' else baseBranch);
          baseBranch = (if BaseBranch manifest \<noteq> [] then BaseBranch manifest else baseBranch);
          commitBranch = branchName;
          commitBranch = (if CommitWithoutPR manifest then baseBranch else commitBranch);
          manifestOwner = DefaultManifestOwner cfg;
          manifestName = DefaultManifestName cfg;
          manifestOwner = (if ManifestOwner app \<noteq> [] then ManifestOwner app else manifestOwner);
          manifestName = (if ManifestName app \<noteq> [] then ManifestName app else manifestName);
          labels = [] @ [SourceName app];
          labels = labels @ [Env manifest];
          labels = labels @ Labels manifest
      in NewRelease
           \<lparr>RepoSourceOwner = manifestOwner, RepoSourceRepo = manifestName,
            RepoBaseBranch = baseBranch, RepoCommitBranch = commitBranch\<rparr>
           \<lparr>AuthorName = GitAuthorName (GitAuthor cfg), AuthorEmail = GitAuthorEmail (GitAuthor cfg)\<rparr>
           message [] labels)"

text \<open>
  \<^verbatim>\<open>newRelease\<close> of the earlier variant: the base branch has the two override levels
  only, and the body is built here.
\<close>

definition newRelease_v0 :: "Config \<Rightarrow> Application \<Rightarrow> Manifest \<Rightarrow> string \<Rightarrow> Release" where
  "newRelease_v0 cfg app manifest version =
     (let branchName = getBranchName_v0 app manifest version;
          message = getCommitMessage_v0 app manifest version;
          baseBranch = ManifestBaseBranch app;
          baseBranch = (if BaseBranch manifest \<noteq> [] then BaseBranch manifest else baseBranch);
          commitBranch = branchName;
          commitBranch = (if CommitWithoutPR manifest then baseBranch else commitBranch);
          body = ''https://github.com/'' @ SourceOwner app @ ''/'' @ SourceName app
                   @ ''/releases/tag/'' @ version;
          body = (if PRBody manifest \<noteq> [] then body @ [CHR 0x0A, CHR 0x0A] @ PRBody manifest else body);
          labels = [] @ [SourceName app];
          labels = labels @ [Env manifest];
          labels = labels @ Labels manifest
      in \<lparr>Repo = \<lparr>RepoSourceOwner = ManifestOwner app, RepoSourceRepo = ManifestName app,
                   RepoBaseBranch = baseBranch, RepoCommitBranch = commitBranch\<rparr>,
          Author = \<lparr>AuthorName = GitAuthorName (GitAuthor cfg),
                     AuthorEmail = GitAuthorEmail (GitAuthor cfg)\<rparr>,
          Message = message, Body = body, ReleaseLabels = labels, Changes = [], changedContentMap = []\<rparr>)"


section \<open>The outside world: GitHub, the clock, the log\<close>

text \<open>
  What \<^verbatim>\<open>process\<close> does beyond computing values goes through the methods of
  \<^verbatim>\<open>gitbot.Release\<close> that talk to GitHub (\<^verbatim>\<open>MakeChangeFunc\<close>, \<^verbatim>\<open>Commit\<close>,
  \<^verbatim>\<open>CreatePR\<close>), through \<^verbatim>\<open>time.Sleep\<close> inside the retry loop and through
  \<^verbatim>\<open>log.Printf\<close>. The exported methods are not among the files at hand and GitHub
  answers as it likes, so they are parameters: functions on a state of the world of an
  arbitrary type \<open>'w\<close>, and every theorem holds for all of them. Calls that do not
  return (a panic inside \<^verbatim>\<open>gitbot\<close>) are outside this model.

  \<^item> \<open>MakeChangeFunc\<close> is given the release, the file path, the text of the regular
    expression and the text the callback returns (it is the same for every match); it
    answers with the new per-path content cache of the release and the values of the
    group \<open>version\<close> of the matches the callback was called with.
  \<^item> \<open>Commit\<close> answers with an error or none, \<open>CreatePR\<close> with an error or the URL.
  \<^item> \<open>Sleep\<close> lets the world move on while the process waits.
  \<^item> \<open>rangeKeys\<close> is the order in which Go ranges over the keys of a map, which the
    language leaves open.

  Next to the world the execution state carries the trace of what was called, with the
  answers; the trace is what the theorems about "no PR is created" speak about.
\<close>

record 'w GitHub =
  MakeChangeFunc :: "Release \<Rightarrow> string \<Rightarrow> string \<Rightarrow> string \<Rightarrow> 'w \<Rightarrow> ((string \<times> string) list \<times> string list) \<times> 'w"
  Commit :: "Release \<Rightarrow> 'w \<Rightarrow> error option \<times> 'w"
  CreatePR :: "Release \<Rightarrow> 'w \<Rightarrow> (error + string) \<times> 'w"
  Sleep :: "int \<Rightarrow> 'w \<Rightarrow> 'w"
  rangeKeys :: "string list \<Rightarrow> 'w \<Rightarrow> string list"

datatype event =
    EvMakeChange string string string
  | EvCommit Release "error option"
  | EvCreatePR Release "error + string"
  | EvSleep int
  | EvLogError string error
  | EvLogString string string

record 'w exec =
  world :: 'w
  trace :: "event list"

text \<open>
  Modelled from the spec: \<^verbatim>\<open>MakeChangeFunc\<close> of \<^verbatim>\<open>gitbot.Release\<close> is not among the
  files at hand. By the spec it fetches the content of the file on first use, applies
  the rule to the content the release holds for that path and keeps the result: of the
  release it changes the per-path content and nothing else.
\<close>

definition callMakeChangeFunc ::
  "'w GitHub \<Rightarrow> Release \<Rightarrow> string \<Rightarrow> string \<Rightarrow> string \<Rightarrow> 'w exec \<Rightarrow> (Release \<times> string list) \<times> 'w exec" where
  "callMakeChangeFunc gh release path regex replacement s =
     (case MakeChangeFunc gh release path regex replacement (world s) of
        ((contents, captured), w) \<Rightarrow>
          ((release\<lparr>changedContentMap := contents\<rparr>, captured),
           \<lparr>world = w, trace = trace s @ [EvMakeChange path regex replacement]\<rparr>))"

definition callCommit :: "'w GitHub \<Rightarrow> Release \<Rightarrow> 'w exec \<Rightarrow> error option \<times> 'w exec" where
  "callCommit gh release s =
     (case Commit gh release (world s) of
        (e, w) \<Rightarrow> (e, \<lparr>world = w, trace = trace s @ [EvCommit release e]\<rparr>))"

definition callCreatePR :: "'w GitHub \<Rightarrow> Release \<Rightarrow> 'w exec \<Rightarrow> (error + string) \<times> 'w exec" where
  "callCreatePR gh release s =
     (case CreatePR gh release (world s) of
        (r, w) \<Rightarrow> (r, \<lparr>world = w, trace = trace s @ [EvCreatePR release r]\<rparr>))"

definition sleep :: "'w GitHub \<Rightarrow> int \<Rightarrow> 'w exec \<Rightarrow> 'w exec" where
  "sleep gh d s = \<lparr>world = Sleep gh d (world s), trace = trace s @ [EvSleep d]\<rparr>"

definition logError :: "string \<Rightarrow> error \<Rightarrow> 'w exec \<Rightarrow> 'w exec" where
  "logError format e s = s\<lparr>trace := trace s @ [EvLogError format e]\<rparr>"

definition logString :: "string \<Rightarrow> string \<Rightarrow> 'w exec \<Rightarrow> 'w exec" where
  "logString format x s = s\<lparr>trace := trace s @ [EvLogString format x]\<rparr>"

text \<open>What a trace says about pull requests and commits.\<close>

fun createPRCalls :: "event list \<Rightarrow> Release list" where
  "createPRCalls [] = []"
| "createPRCalls (EvCreatePR r res # es) = r # createPRCalls es"
| "createPRCalls (e # es) = createPRCalls es"

fun openedURLs :: "event list \<Rightarrow> string list" where
  "openedURLs [] = []"
| "openedURLs (EvCreatePR r (Inr u) # es) = u # openedURLs es"
| "openedURLs (e # es) = openedURLs es"

fun commitCalls :: "event list \<Rightarrow> Release list" where
  "commitCalls [] = []"
| "commitCalls (EvCommit r res # es) = r # commitCalls es"
| "commitCalls (e # es) = commitCalls es"


section \<open>Looking up the application\<close>

primrec findApplication :: "string \<Rightarrow> Application list \<Rightarrow> Application option" where
  "findApplication img [] = None"
| "findApplication img (app # apps) =
     (if img = Image app then Some app else findApplication img apps)"

definition getApplicationByImage :: "Config \<Rightarrow> string \<Rightarrow> error + Application" where
  "getApplicationByImage cfg img =
     (case findApplication img (ApplicationList cfg) of
        Some app \<Rightarrow> Inr app
      | None \<Rightarrow> Inl (ErrorString (''No application found for image '' @ img)))"


section \<open>Processing an application: \<^verbatim>\<open>flow/process.go\<close>\<close>

definition versionRewriteRegex :: string where
  "versionRewriteRegex = ''(?!.*(do-not-rewrite|no-rewrite).*)(version: +(?<version>.*))''"

definition imageRewriteRegexTemplate :: "string \<Rightarrow> string" where
  "imageRewriteRegexTemplate x = x @ '':(?<version>.*)''"

definition additionalRewriteKeysRegexTemplate :: "string \<Rightarrow> string" where
  "additionalRewriteKeysRegexTemplate x = x @ '': +(?<version>.*)''"

definition additionalRewritePrefixRegexTemplate :: "string \<Rightarrow> string" where
  "additionalRewritePrefixRegexTemplate x = x @ ''(?<version>.*)''"

text \<open>
  Modelled from the spec: \<^verbatim>\<open>SetBody\<close> of \<^verbatim>\<open>gitbot.Release\<close> is not among the files at
  hand; it stores the PR body.
\<close>

definition SetBody :: "Release \<Rightarrow> string \<Rightarrow> Release" where
  "SetBody release body = release\<lparr>Body := body\<rparr>"

definition generateBody :: "Application \<Rightarrow> Manifest \<Rightarrow> string \<Rightarrow> string list \<Rightarrow> string" where
  "generateBody app manifest version oldVersions =
     (let body = [];
          body =
            (if \<not> HideSourceReleaseDesc manifest then
               body @ ''## Release'' @ [CHR 0x0A]
                 @ ''https://github.com/'' @ SourceOwner app @ ''/'' @ SourceName app
                 @ ''/releases/tag/'' @ version @ [CHR 0x0A]
                 @ [CHR 0x0A]
                 @ ''### Diff from last release'' @ [CHR 0x0A]
                 @ concat (map (\<lambda>oldVersion.
                     ''https://github.com/'' @ SourceOwner app @ ''/'' @ SourceName app
                       @ ''/compare/'' @ version @ ''...'' @ oldVersion @ [CHR 0x0A]) oldVersions)
                 @ [CHR 0x0A]
             else body)
      in if PRBody manifest \<noteq> [] then body @ [CHR 0x0A, CHR 0x0A] @ PRBody manifest else body)"

text \<open>
  One call of \<^verbatim>\<open>MakeChangeFunc\<close> with its callback: the callback stores every old
  version it sees as a key of \<^verbatim>\<open>oldVersionSet\<close> (a list without repetitions here).
\<close>

definition makeChange ::
  "'w GitHub \<Rightarrow> string \<Rightarrow> string \<Rightarrow> string \<Rightarrow> Release \<times> string list \<times> 'w exec \<Rightarrow> Release \<times> string list \<times> 'w exec" where
  "makeChange gh path regex replacement acc =
     (case acc of (release, oldVersionSet, s) \<Rightarrow>
        (case callMakeChangeFunc gh release path regex replacement s of
           ((release', captured), s') \<Rightarrow> (release', fold List.insert captured oldVersionSet, s')))"

primrec rewriteKeys ::
  "'w GitHub \<Rightarrow> string \<Rightarrow> string \<Rightarrow> string list \<Rightarrow> Release \<times> string list \<times> 'w exec \<Rightarrow> Release \<times> string list \<times> 'w exec" where
  "rewriteKeys gh version path [] acc = acc"
| "rewriteKeys gh version path (key # keys) acc =
     rewriteKeys gh version path keys
       (makeChange gh path (additionalRewriteKeysRegexTemplate key) (key @ '': '' @ version) acc)"

primrec rewritePrefixes ::
  "'w GitHub \<Rightarrow> string \<Rightarrow> string \<Rightarrow> string list \<Rightarrow> Release \<times> string list \<times> 'w exec \<Rightarrow> Release \<times> string list \<times> 'w exec" where
  "rewritePrefixes gh version path [] acc = acc"
| "rewritePrefixes gh version path (pre # pres) acc =
     rewritePrefixes gh version path pres
       (makeChange gh path (additionalRewritePrefixRegexTemplate pre) (pre @ version) acc)"

primrec rewriteFiles ::
  "'w GitHub \<Rightarrow> Application \<Rightarrow> string \<Rightarrow> string list \<Rightarrow> Release \<times> string list \<times> 'w exec \<Rightarrow> Release \<times> string list \<times> 'w exec" where
  "rewriteFiles gh app version [] acc = acc"
| "rewriteFiles gh app version (path # paths) acc =
     (let acc = makeChange gh path (imageRewriteRegexTemplate (Image app))
                  (Image app @ '':'' @ version) acc;
          acc = makeChange gh path versionRewriteRegex (''version: '' @ version) acc;
          acc = rewriteKeys gh version path (AdditionalRewriteKeys app) acc;
          acc = rewritePrefixes gh version path (AdditionalRewritePrefix app) acc
      in rewriteFiles gh app version paths acc)"

text \<open>
  The end of the loop body, the same in both variants: unless the manifest commits
  without a PR, create the PR and append its URL; an error is logged and the loop
  continues with the next manifest.
\<close>

definition submitPR ::
  "'w GitHub \<Rightarrow> Manifest \<Rightarrow> Release \<Rightarrow> PullRequests \<times> 'w exec \<Rightarrow> PullRequests \<times> 'w exec" where
  "submitPR gh manifest release acc =
     (case acc of (prs, s) \<Rightarrow>
        if \<not> CommitWithoutPR manifest then
          (case callCreatePR gh release s of
             (Inl e, s') \<Rightarrow> (prs, logError ''Error Submitting PR: %s'' e s')
           | (Inr u, s') \<Rightarrow> (prs @ [\<lparr>env = Env manifest, url = u, err = None\<rparr>], s'))
        else (prs, s))"

text \<open>The body of the loop over \<^verbatim>\<open>app.Manifests\<close>; \<^verbatim>\<open>continue\<close> returns the loop state.\<close>

definition processManifest ::
  "'w GitHub \<Rightarrow> Config \<Rightarrow> Application \<Rightarrow> string \<Rightarrow> Manifest \<Rightarrow> PullRequests \<times> 'w exec \<Rightarrow> PullRequests \<times> 'w exec" where
  "processManifest gh cfg app version manifest acc =
     (case acc of (prs, s) \<Rightarrow>
        if \<not> shouldProcess manifest version then (prs, s)
        else
          (case rewriteFiles gh app version (Files manifest)
                  (newRelease cfg app manifest version, [], s) of
             (release, oldVersionSet, s1) \<Rightarrow>
               (let oldVersions = rangeKeys gh oldVersionSet (world s1);
                    body = generateBody app manifest version oldVersions;
                    release = SetBody release body
                in case callCommit gh release s1 of
                     (Some e, s2) \<Rightarrow> (prs, logError ''Error Commiting: %s'' e s2)
                   | (None, s2) \<Rightarrow> submitPR gh manifest release (prs, s2))))"

primrec processManifests ::
  "'w GitHub \<Rightarrow> Config \<Rightarrow> Application \<Rightarrow> string \<Rightarrow> Manifest list \<Rightarrow> PullRequests \<times> 'w exec \<Rightarrow> PullRequests \<times> 'w exec" where
  "processManifests gh cfg app version [] acc = acc"
| "processManifests gh cfg app version (manifest # manifests) acc =
     processManifests gh cfg app version manifests (processManifest gh cfg app version manifest acc)"

definition process ::
  "'w GitHub \<Rightarrow> Config \<Rightarrow> Application \<Rightarrow> string \<Rightarrow> 'w exec \<Rightarrow> PullRequests \<times> 'w exec" where
  "process gh cfg app version s = processManifests gh cfg app version (Manifests app) ([], s)"

primrec logProcessed :: "PullRequests \<Rightarrow> 'w exec \<Rightarrow> 'w exec" where
  "logProcessed [] s = s"
| "logProcessed (pr # prs) s =
     logProcessed prs (logString (''Processed PR: %s'' @ [CHR 0x0A]) (url pr) s)"

definition processImage ::
  "'w GitHub \<Rightarrow> Config \<Rightarrow> string \<Rightarrow> string \<Rightarrow> 'w exec \<Rightarrow> error option \<times> 'w exec" where
  "processImage gh cfg img version s =
     (case getApplicationByImage cfg img of
        Inl e \<Rightarrow> (Some e, s)
      | Inr app \<Rightarrow>
          (case process gh cfg app version s of
             (prs, s') \<Rightarrow> (None, logProcessed prs s')))"


section \<open>Processing an application: the earlier variant\<close>

text \<open>
  The unnamed source file is an earlier state of \<^verbatim>\<open>flow/process.go\<close>: the changes are
  recorded with \<^verbatim>\<open>AddChanges\<close> and applied by \<^verbatim>\<open>Commit\<close>, and the commit is retried.
  Its definitions carry the suffix \<open>_v0\<close>; \<^verbatim>\<open>shouldProcess\<close> and
  \<^verbatim>\<open>getApplicationByImage\<close> are the same text in both files.
\<close>

definition retryCommitTries :: nat where
  "retryCommitTries = 3"

text \<open>\<^verbatim>\<open>time.Duration\<close> counts nanoseconds.\<close>

definition Second :: int where
  "Second = 1000000000"

definition commitDelayType :: "nat \<Rightarrow> int" where
  "commitDelayType n = 3 * Second"

text \<open>
  Modelled from the spec: \<^verbatim>\<open>AddChanges\<close> of \<^verbatim>\<open>gitbot.Release\<close> is not among the files
  at hand. It registers one more change (file path, pattern, replacement) after those
  registered before; \<^verbatim>\<open>getTree\<close> reads them in that order.
\<close>

definition AddChanges :: "Release \<Rightarrow> string \<Rightarrow> string \<Rightarrow> string \<Rightarrow> Release" where
  "AddChanges release path regex changed =
     release\<lparr>Changes := Changes release @ [\<lparr>filePath = path, regexText = regex, changedText = changed\<rparr>]\<rparr>"

primrec addFileChanges_v0 :: "Application \<Rightarrow> string \<Rightarrow> string list \<Rightarrow> Release \<Rightarrow> Release" where
  "addFileChanges_v0 app version [] release = release"
| "addFileChanges_v0 app version (path # paths) release =
     (let release = AddChanges release path (Image app @ '':.*'') (Image app @ '':'' @ version);
          release = (if RewriteVersion app
                     then AddChanges release path ''version: .*'' (''version: '' @ version)
                     else release);
          release = (if RewriteNewTag app \<and> sublist ''kustomization.yaml'' path
                     then AddChanges release path ''newTag: .*'' (''newTag: '' @ version)
                     else release)
      in addFileChanges_v0 app version paths release)"

text \<open>
  \<^verbatim>\<open>retry.Do\<close> of the library \<^verbatim>\<open>avast/retry-go\<close>, with the two options the call
  site sets (the number of attempts and the delay function) and the library's default for
  the rest: the function is called until it returns no error or the attempts are used
  up; between two attempts the process sleeps for \<open>delayType n\<close>, where \<open>n\<close> counts the
  failed attempts before; when the last attempt fails, the errors of all attempts are
  returned. The first argument is the number of attempts left.
\<close>

primrec retry_loop ::
  "nat \<Rightarrow> nat \<Rightarrow> (nat \<Rightarrow> int) \<Rightarrow> 'w GitHub \<Rightarrow> ('w exec \<Rightarrow> error option \<times> 'w exec) \<Rightarrow> error list \<Rightarrow> 'w exec \<Rightarrow> error option \<times> 'w exec" where
  "retry_loop 0 n delayType gh f errorLog s = (Some (RetryError errorLog), s)"
| "retry_loop (Suc k) n delayType gh f errorLog s =
     (case f s of
        (None, s') \<Rightarrow> (None, s')
      | (Some e, s') \<Rightarrow>
          if k = 0 then (Some (RetryError (errorLog @ [e])), s')
          else retry_loop k (Suc n) delayType gh f (errorLog @ [e]) (sleep gh (delayType n) s'))"

definition retry_Do ::
  "nat \<Rightarrow> (nat \<Rightarrow> int) \<Rightarrow> 'w GitHub \<Rightarrow> ('w exec \<Rightarrow> error option \<times> 'w exec) \<Rightarrow> 'w exec \<Rightarrow> error option \<times> 'w exec" where
  "retry_Do attempts delayType gh f s = retry_loop attempts 0 delayType gh f [] s"

definition processManifest_v0 ::
  "'w GitHub \<Rightarrow> Config \<Rightarrow> Application \<Rightarrow> string \<Rightarrow> Manifest \<Rightarrow> PullRequests \<times> 'w exec \<Rightarrow> PullRequests \<times> 'w exec" where
  "processManifest_v0 gh cfg app version manifest acc =
     (case acc of (prs, s) \<Rightarrow>
        if \<not> shouldProcess manifest version then (prs, s)
        else
          (let release = newRelease_v0 cfg app manifest version;
               release = addFileChanges_v0 app version (Files manifest) release
           in case retry_Do retryCommitTries commitDelayType gh (callCommit gh release) s of
                (Some e, s') \<Rightarrow> (prs, logError ''Error Commiting: %s'' e s')
              | (None, s') \<Rightarrow> submitPR gh manifest release (prs, s')))"

primrec processManifests_v0 ::
  "'w GitHub \<Rightarrow> Config \<Rightarrow> Application \<Rightarrow> string \<Rightarrow> Manifest list \<Rightarrow> PullRequests \<times> 'w exec \<Rightarrow> PullRequests \<times> 'w exec" where
  "processManifests_v0 gh cfg app version [] acc = acc"
| "processManifests_v0 gh cfg app version (manifest # manifests) acc =
     processManifests_v0 gh cfg app version manifests
       (processManifest_v0 gh cfg app version manifest acc)"

definition process_v0 ::
  "'w GitHub \<Rightarrow> Config \<Rightarrow> Application \<Rightarrow> string \<Rightarrow> 'w exec \<Rightarrow> PullRequests \<times> 'w exec" where
  "process_v0 gh cfg app version s =
     processManifests_v0 gh cfg app version (Manifests app) ([], s)"


section \<open>The version-key rewrite rule\<close>

text \<open>
  The library \<^verbatim>\<open>dlclark/regexp2\<close> does not work on the bytes of a Go string: it turns
  the string into its sequence of runes (Unicode code points; a byte that is not part of
  valid UTF-8 becomes the rune U+FFFD), matches and replaces on runes, and turns the
  result back into a string. The rule is modelled where it works, on sequences of runes.
  \<open>runes\<close> gives the runes of an ASCII text, which are its bytes.
\<close>

type_synonym rune = nat

definition runes :: "string \<Rightarrow> rune list" where
  "runes s = map of_char s"

text \<open>
  The rule is the pattern \<open>versionRewriteRegex\<close> with the callback that returns
  \<open>version: \<close> followed by the new version. The pattern is read as the library reads it
  with no option set:
  \<^item> \<open>.\<close> is any rune but the line feed (rune 10), so nothing in the pattern crosses the
    end of a line;
  \<^item> \<open>(?!.*(do-not-rewrite|no-rewrite).*)\<close> fails at a position when one of the two
    markers occurs between that position and the end of its line (\<open>hasMarker\<close>);
  \<^item> \<open>version: +\<close> is the text \<open>version:\<close> and one space or more, and the greedy
    \<open>(?<version>.*)\<close> takes what is left of the line: a match starts where the text
    \<open>version: \<close> starts and ends where the line ends.
\<close>

definition restOfLine :: "rune list \<Rightarrow> rune list" where
  "restOfLine s = takeWhile (\<lambda>c. c \<noteq> 10) s"

definition hasMarker :: "rune list \<Rightarrow> bool" where
  "hasMarker s =
     (sublist (runes ''do-not-rewrite'') (restOfLine s)
      \<or> sublist (runes ''no-rewrite'') (restOfLine s))"

definition versionRuleMatchesAt :: "rune list \<Rightarrow> bool" where
  "versionRuleMatchesAt s = (\<not> hasMarker s \<and> prefix (runes ''version: '') s)"

text \<open>
  Modelled from the spec: \<^verbatim>\<open>MakeChangeFunc\<close> of \<^verbatim>\<open>gitbot.Release\<close>, which applies a
  rule to the content of a file, is not among the files at hand. By the spec every match
  is replaced with what the callback returns; the matches are found from left to right,
  each search starting where the match before ended, as \<^verbatim>\<open>getChangedText\<close> does with
  \<^verbatim>\<open>Replace\<close> from position 0 and without a limit on the number of matches. The
  first argument is the new version, the second the content, both as runes.
\<close>

function applyVersionRule :: "rune list \<Rightarrow> rune list \<Rightarrow> rune list" where
  "applyVersionRule version [] = []"
| "applyVersionRule version (c # cs) =
     (if versionRuleMatchesAt (c # cs)
      then runes ''version: '' @ version
             @ applyVersionRule version (dropWhile (\<lambda>x. x \<noteq> 10) (c # cs))
      else c # applyVersionRule version cs)"
  by pat_completeness auto
termination
  by (relation "measure (\<lambda>(v, s). length s)")
     (auto simp: versionRuleMatchesAt_def runes_def intro: le_imp_less_Suc length_dropWhile_le)


section \<open>Reading a trace\<close>

text \<open>What a trace says about the calls made: the events of rewriting, and the sleeps.\<close>

fun isMakeChange :: "event \<Rightarrow> bool" where
  "isMakeChange (EvMakeChange p re rep) = True"
| "isMakeChange e = False"

fun sleeps :: "event list \<Rightarrow> int list" where
  "sleeps [] = []"
| "sleeps (EvSleep d # es) = d # sleeps es"
| "sleeps (e # es) = sleeps es"


section \<open>A concrete configuration\<close>

text \<open>
  One application with four manifests, and a GitHub that refuses every commit for the
  environment \<open>stg\<close>, refuses the pull request for \<open>qa\<close> and accepts everything
  else; its state counts the commits attempted.
\<close>

definition exampleManifest :: Manifest where
  "exampleManifest =
     \<lparr>Env = ''prod'', Files = [''deploy.yaml''],
      Filters = \<lparr>IncludePrefixes = [], ExcludePrefixes = []\<rparr>,
      BaseBranch = [], CommitWithoutPR = False, ShowSourceOwner = False,
      ShowSourceName = True, HideSourceName = False, HideSourceReleaseDesc = False,
      PRBody = [], Labels = []\<rparr>"

definition exampleApplication :: Application where
  "exampleApplication =
     \<lparr>Name = ''app'', Image = ''registry/app'', SourceOwner = ''org'', SourceName = ''app'',
      ManifestOwner = ''org'', ManifestName = ''manifests'', ManifestBaseBranch = [],
      Manifests = [exampleManifest\<lparr>Env := ''stg''\<rparr>, exampleManifest\<lparr>Env := ''qa''\<rparr>,
                   exampleManifest, exampleManifest\<lparr>Env := ''dev'', CommitWithoutPR := True\<rparr>],
      RewriteVersion = True, RewriteNewTag = False,
      AdditionalRewriteKeys = [], AdditionalRewritePrefix = []\<rparr>"

definition exampleConfig :: Config where
  "exampleConfig =
     \<lparr>ApplicationList = [exampleApplication], DefaultBranch = ''main'',
      DefaultManifestOwner = ''org'', DefaultManifestName = ''manifests'',
      GitAuthor = \<lparr>GitAuthorName = ''flow'', GitAuthorEmail = ''flow@example.com''\<rparr>\<rparr>"

definition exampleGitHub :: "nat GitHub" where
  "exampleGitHub =
     \<lparr>MakeChangeFunc = (\<lambda>release path regex replacement w.
        ((changedContentMap release, [''v1.2.2'']), w)),
      Commit = (\<lambda>release w.
        (if ''stg'' \<in> set (ReleaseLabels release) then Some (ErrorString ''ref moved'') else None,
         Suc w)),
      CreatePR = (\<lambda>release w.
        (if ''qa'' \<in> set (ReleaseLabels release) then Inl (ErrorString ''validation failed'')
         else Inr (''https://github.com/org/manifests/pull/'' @ RepoCommitBranch (Repo release)),
         w)),
      Sleep = (\<lambda>d w. w),
      rangeKeys = (\<lambda>keys w. keys)\<rparr>"

lemmas example_defs = exampleManifest_def exampleApplication_def exampleConfig_def exampleGitHub_def

lemmas process_defs = process_def processManifest_def submitPR_def shouldProcess_def newRelease_def
  NewRelease_def getBranchName_def getCommitMessage_def makeChange_def callMakeChangeFunc_def
  callCommit_def callCreatePR_def logError_def SetBody_def generateBody_def Let_def
  imageRewriteRegexTemplate_def versionRewriteRegex_def

lemmas process_v0_defs = process_v0_def processManifest_v0_def submitPR_def shouldProcess_def
  newRelease_v0_def getBranchName_v0_def getCommitMessage_v0_def AddChanges_def retry_Do_def
  retryCommitTries_def commitDelayType_def sleep_def callCommit_def callCreatePR_def logError_def
  Let_def


section \<open>Properties of the filter\<close>

lemma anyHasPrefix_iff: "anyHasPrefix version ps \<longleftrightarrow> (\<exists>p \<in> set ps. prefix p version)"
  by (induction ps) auto

text \<open>
  Claim C6. For the empty version and for the version \<open>latest\<close>, \<open>shouldProcess\<close>
  returns false, whatever the include and exclude prefixes of the manifest are.
\<close>

theorem shouldProcess_empty_or_latest:
  "version = [] \<or> version = ''latest'' \<Longrightarrow> shouldProcess m version = False"
  by (auto simp: shouldProcess_def)

text \<open>
  Witness for C6: \<open>latest\<close> is rejected even by a manifest whose include prefixes
  match it.
\<close>

theorem shouldProcess_empty_or_latest_witness:
  "shouldProcess
     (exampleManifest\<lparr>Filters := \<lparr>IncludePrefixes = [''l'', []], ExcludePrefixes = []\<rparr>\<rparr>)
     ''latest'' = False"
  using shouldProcess_empty_or_latest [of "''latest''"] by simp

text \<open>
  Claim C5, as stated, fails: with no include prefix and no exclude prefix, no exclude
  prefix is a prefix of \<open>latest\<close>, and \<open>shouldProcess\<close> still returns false, because
  the check of the version comes first.
\<close>

theorem shouldProcess_no_include_counterexample:
  "IncludePrefixes (Filters exampleManifest) = []
   \<and> ExcludePrefixes (Filters exampleManifest) = []
   \<and> shouldProcess exampleManifest ''latest'' = False"
  by (simp add: exampleManifest_def shouldProcess_def)

text \<open>
  Claim C5, amended. For a manifest with no include prefix and a version that is neither
  empty nor \<open>latest\<close>, \<open>shouldProcess\<close> returns true if and only if no exclude prefix
  is a prefix of the version.
\<close>

theorem shouldProcess_no_include:
  assumes "IncludePrefixes (Filters m) = []" and "version \<noteq> []" and "version \<noteq> ''latest''"
  shows "shouldProcess m version
           \<longleftrightarrow> \<not> (\<exists>p \<in> set (ExcludePrefixes (Filters m)). prefix p version)"
  using assms by (simp add: shouldProcess_def anyHasPrefix_iff)

text \<open>Witness for C5: one version that is accepted and one that is excluded.\<close>

theorem shouldProcess_no_include_witness:
  "shouldProcess
     (exampleManifest\<lparr>Filters := \<lparr>IncludePrefixes = [], ExcludePrefixes = [''dev-'']\<rparr>\<rparr>)
     ''v1.2.3''
   \<and> \<not> shouldProcess
       (exampleManifest\<lparr>Filters := \<lparr>IncludePrefixes = [], ExcludePrefixes = [''dev-'']\<rparr>\<rparr>)
       ''dev-7''"
  using shouldProcess_no_include
          [of "exampleManifest\<lparr>Filters := \<lparr>IncludePrefixes = [], ExcludePrefixes = [''dev-'']\<rparr>\<rparr>"
              "''v1.2.3''"]
        shouldProcess_no_include
          [of "exampleManifest\<lparr>Filters := \<lparr>IncludePrefixes = [], ExcludePrefixes = [''dev-'']\<rparr>\<rparr>"
              "''dev-7''"]
  by simp

text \<open>
  Claim C10. When the exclude prefixes contain the empty string, \<open>shouldProcess\<close>
  returns false for every version; when the include prefixes contain the empty string,
  every version that is not empty, not \<open>latest\<close> and not excluded is accepted.
\<close>

theorem shouldProcess_empty_prefix:
  "([] \<in> set (ExcludePrefixes (Filters m)) \<longrightarrow> shouldProcess m version = False)
   \<and> ([] \<in> set (IncludePrefixes (Filters m)) \<and> version \<noteq> [] \<and> version \<noteq> ''latest''
        \<and> \<not> (\<exists>p \<in> set (ExcludePrefixes (Filters m)). prefix p version)
      \<longrightarrow> shouldProcess m version = True)"
  by (auto simp: shouldProcess_def anyHasPrefix_iff)

text \<open>Witness for C10: one manifest for each of the two halves.\<close>

theorem shouldProcess_empty_prefix_witness:
  "shouldProcess
     (exampleManifest\<lparr>Filters := \<lparr>IncludePrefixes = [], ExcludePrefixes = [''x'', []]\<rparr>\<rparr>)
     ''v1.2.3'' = False
   \<and> shouldProcess
       (exampleManifest\<lparr>Filters := \<lparr>IncludePrefixes = [''rc-'', []], ExcludePrefixes = [''dev-'']\<rparr>\<rparr>)
       ''v1.2.3'' = True"
  using shouldProcess_empty_prefix
          [of "exampleManifest\<lparr>Filters := \<lparr>IncludePrefixes = [], ExcludePrefixes = [''x'', []]\<rparr>\<rparr>"
              "''v1.2.3''"]
        shouldProcess_empty_prefix
          [of "exampleManifest\<lparr>Filters := \<lparr>IncludePrefixes = [''rc-'', []], ExcludePrefixes = [''dev-'']\<rparr>\<rparr>"
              "''v1.2.3''"]
  by simp


section \<open>Properties of the release descriptor\<close>

text \<open>
  Claim C1. The base branch of the release that \<open>newRelease\<close> builds is the base branch
  of the manifest when that is not empty, otherwise the base branch of the application
  when that is not empty, otherwise the default branch of the configuration when that is
  not empty, otherwise \<open>master\<close>.
\<close>

theorem newRelease_baseBranch:
  "RepoBaseBranch (Repo (newRelease cfg app manifest version)) =
     (if BaseBranch manifest \<noteq> [] then BaseBranch manifest
      else if ManifestBaseBranch app \<noteq> [] then ManifestBaseBranch app
      else if DefaultBranch cfg \<noteq> [] then DefaultBranch cfg
      else ''master'')"
  by (simp add: newRelease_def NewRelease_def Let_def)

text \<open>The earlier variant stops after the application: it has no default and no \<open>master\<close>.\<close>

lemma newRelease_v0_baseBranch:
  "RepoBaseBranch (Repo (newRelease_v0 cfg app manifest version)) =
     (if BaseBranch manifest \<noteq> [] then BaseBranch manifest else ManifestBaseBranch app)"
  by (simp add: newRelease_v0_def Let_def)

lemma newRelease_v0_commitBranch:
  "RepoCommitBranch (Repo (newRelease_v0 cfg app manifest version)) =
     (if CommitWithoutPR manifest then RepoBaseBranch (Repo (newRelease_v0 cfg app manifest version))
      else getBranchName_v0 app manifest version)"
  by (simp add: newRelease_v0_def Let_def)

text \<open>
  Claim C7. The branch name and the commit message are functions of the application, the
  manifest and the version alone, and of these they read the environment, the two
  visibility flags and the name and owner of the source only: two calls whose arguments
  agree there (in particular, two calls with identical arguments) return the same
  string. This holds for both variants of the two functions.
\<close>

theorem naming_deterministic:
  assumes "Env m = Env m'" and "ShowSourceOwner m = ShowSourceOwner m'"
    and "HideSourceName m = HideSourceName m'" and "ShowSourceName m = ShowSourceName m'"
    and "SourceOwner a = SourceOwner a'" and "SourceName a = SourceName a'"
    and "version = version'"
  shows "getBranchName a m version = getBranchName a' m' version'
       \<and> getCommitMessage a m version = getCommitMessage a' m' version'
       \<and> getBranchName_v0 a m version = getBranchName_v0 a' m' version'
       \<and> getCommitMessage_v0 a m version = getCommitMessage_v0 a' m' version'"
  using assms
  by (simp add: getBranchName_def getCommitMessage_def getBranchName_v0_def
        getCommitMessage_v0_def Let_def)

text \<open>
  Witness for C7: the same call twice, and a call on an application and a manifest that
  differ in fields the functions do not read.
\<close>

theorem naming_deterministic_witness:
  "getBranchName exampleApplication exampleManifest ''v1.2.3''
     = getBranchName exampleApplication exampleManifest ''v1.2.3''
   \<and> getBranchName exampleApplication exampleManifest ''v1.2.3''
     = getBranchName (exampleApplication\<lparr>Image := ''registry/other''\<rparr>)
         (exampleManifest\<lparr>Labels := [''urgent'']\<rparr>) ''v1.2.3''
   \<and> getCommitMessage exampleApplication exampleManifest ''v1.2.3''
     = getCommitMessage (exampleApplication\<lparr>Image := ''registry/other''\<rparr>)
         (exampleManifest\<lparr>Labels := [''urgent'']\<rparr>) ''v1.2.3''"
  using naming_deterministic
          [of exampleManifest exampleManifest exampleApplication exampleApplication
              "''v1.2.3''" "''v1.2.3''"]
        naming_deterministic
          [of exampleManifest "exampleManifest\<lparr>Labels := [''urgent'']\<rparr>"
              exampleApplication "exampleApplication\<lparr>Image := ''registry/other''\<rparr>"
              "''v1.2.3''" "''v1.2.3''"]
  by simp


section \<open>Properties of the lookup\<close>

lemma findApplication_None:
  "\<forall>app \<in> set apps. img \<noteq> Image app \<Longrightarrow> findApplication img apps = None"
  by (induction apps) auto

text \<open>
  Claim C9. For an image that is the image of no application of the catalog,
  \<open>processImage\<close> returns the error \<open>No application found for image\<close> followed by the
  image, and the world and the trace are what they were: no manifest is processed, and
  nothing is rewritten, committed or opened.
\<close>

theorem processImage_unknown_image:
  assumes "\<forall>app \<in> set (ApplicationList cfg). img \<noteq> Image app"
  shows "processImage gh cfg img version s
           = (Some (ErrorString (''No application found for image '' @ img)), s)"
  using assms by (simp add: processImage_def getApplicationByImage_def findApplication_None)

text \<open>Witness for C9: an image that the example catalog does not have.\<close>

theorem processImage_unknown_image_witness:
  "processImage exampleGitHub exampleConfig ''registry/other'' ''v1.2.3'' \<lparr>world = 0, trace = []\<rparr>
     = (Some (ErrorString ''No application found for image registry/other''),
        \<lparr>world = 0, trace = []\<rparr>)"
  using processImage_unknown_image
          [of exampleConfig "''registry/other''" exampleGitHub "''v1.2.3''"
              "\<lparr>world = 0, trace = []\<rparr>"]
  by (simp add: exampleConfig_def exampleApplication_def)


section \<open>What the rewriting and the loop body add to the trace\<close>

lemma createPRCalls_append: "createPRCalls (xs @ ys) = createPRCalls xs @ createPRCalls ys"
  by (induction xs rule: createPRCalls.induct) simp_all

lemma openedURLs_append: "openedURLs (xs @ ys) = openedURLs xs @ openedURLs ys"
  by (induction xs rule: openedURLs.induct) simp_all

lemma commitCalls_append: "commitCalls (xs @ ys) = commitCalls xs @ commitCalls ys"
  by (induction xs rule: commitCalls.induct) simp_all

lemma sleeps_append: "sleeps (xs @ ys) = sleeps xs @ sleeps ys"
  by (induction xs rule: sleeps.induct) simp_all

lemma makeChanges_quiet:
  "list_all isMakeChange evs \<Longrightarrow> createPRCalls evs = [] \<and> openedURLs evs = [] \<and> commitCalls evs = []"
  by (induction evs) (auto elim!: isMakeChange.elims(2))

lemma makeChange_effect:
  assumes "makeChange gh path regex replacement (r, olds, s) = (r', olds', s')"
  shows "trace s' = trace s @ [EvMakeChange path regex replacement] \<and> Repo r' = Repo r"
  using assms by (auto simp: makeChange_def callMakeChangeFunc_def split: prod.splits)

lemma rewriteKeys_effect:
  "rewriteKeys gh version path keys (r, olds, s) = (r', olds', s')
   \<Longrightarrow> \<exists>evs. trace s' = trace s @ evs \<and> list_all isMakeChange evs \<and> Repo r' = Repo r"
proof (induction keys arbitrary: r olds s)
  case Nil
  then show ?case by simp
next
  case (Cons key keys)
  obtain r1 olds1 s1 where
    step: "makeChange gh path (additionalRewriteKeysRegexTemplate key) (key @ '': '' @ version) (r, olds, s) = (r1, olds1, s1)"
    by (metis prod_cases3)
  with Cons.prems have "rewriteKeys gh version path keys (r1, olds1, s1) = (r', olds', s')"
    by simp
  from Cons.IH [OF this] obtain evs where
    "trace s' = trace s1 @ evs" "list_all isMakeChange evs" "Repo r' = Repo r1"
    by blast
  with makeChange_effect [OF step] show ?case by simp
qed

lemma rewritePrefixes_effect:
  "rewritePrefixes gh version path pres (r, olds, s) = (r', olds', s')
   \<Longrightarrow> \<exists>evs. trace s' = trace s @ evs \<and> list_all isMakeChange evs \<and> Repo r' = Repo r"
proof (induction pres arbitrary: r olds s)
  case Nil
  then show ?case by simp
next
  case (Cons pre pres)
  obtain r1 olds1 s1 where
    step: "makeChange gh path (additionalRewritePrefixRegexTemplate pre) (pre @ version) (r, olds, s) = (r1, olds1, s1)"
    by (metis prod_cases3)
  with Cons.prems have "rewritePrefixes gh version path pres (r1, olds1, s1) = (r', olds', s')"
    by simp
  from Cons.IH [OF this] obtain evs where
    "trace s' = trace s1 @ evs" "list_all isMakeChange evs" "Repo r' = Repo r1"
    by blast
  with makeChange_effect [OF step] show ?case by simp
qed

lemma rewriteFiles_effect:
  "rewriteFiles gh app version paths (r, olds, s) = (r', olds', s')
   \<Longrightarrow> \<exists>evs. trace s' = trace s @ evs \<and> list_all isMakeChange evs \<and> Repo r' = Repo r"
proof (induction paths arbitrary: r olds s)
  case Nil
  then show ?case by simp
next
  case (Cons path paths)
  obtain r1 olds1 s1 where
    s1: "makeChange gh path (imageRewriteRegexTemplate (Image app)) (Image app @ '':'' @ version) (r, olds, s) = (r1, olds1, s1)"
    by (metis prod_cases3)
  obtain r2 olds2 s2 where
    s2: "makeChange gh path versionRewriteRegex (''version: '' @ version) (r1, olds1, s1) = (r2, olds2, s2)"
    by (metis prod_cases3)
  obtain r3 olds3 s3 where
    s3: "rewriteKeys gh version path (AdditionalRewriteKeys app) (r2, olds2, s2) = (r3, olds3, s3)"
    by (metis prod_cases3)
  obtain r4 olds4 s4 where
    s4: "rewritePrefixes gh version path (AdditionalRewritePrefix app) (r3, olds3, s3) = (r4, olds4, s4)"
    by (metis prod_cases3)
  from Cons.prems s1 s2 s3 s4
  have "rewriteFiles gh app version paths (r4, olds4, s4) = (r', olds', s')"
    by (simp add: Let_def)
  from Cons.IH [OF this] obtain evs where
    e: "trace s' = trace s4 @ evs" "list_all isMakeChange evs" "Repo r' = Repo r4"
    by blast
  from rewriteKeys_effect [OF s3] obtain evs3 where
    e3: "trace s3 = trace s2 @ evs3" "list_all isMakeChange evs3" "Repo r3 = Repo r2"
    by blast
  from rewritePrefixes_effect [OF s4] obtain evs4 where
    e4: "trace s4 = trace s3 @ evs4" "list_all isMakeChange evs4" "Repo r4 = Repo r3"
    by blast
  from makeChange_effect [OF s1] makeChange_effect [OF s2] e e3 e4
  show ?case by simp
qed


lemma submitPR_effect:
  assumes "submitPR gh m r (prs, s) = (prs', s')"
  shows "\<exists>evs es. trace s' = trace s @ evs \<and> prs' = prs @ es
           \<and> map url es = openedURLs evs \<and> commitCalls evs = [] \<and> sleeps evs = []
           \<and> (\<forall>pr \<in> set es. err pr = None \<and> env pr = Env m)
           \<and> length es \<le> 1
           \<and> (es \<noteq> [] \<longrightarrow> \<not> CommitWithoutPR m)
           \<and> (CommitWithoutPR m \<longrightarrow> evs = [])"
proof (cases "CommitWithoutPR m")
  case True
  with assms have "prs' = prs" "s' = s" by (simp_all add: submitPR_def)
  with True show ?thesis by simp
next
  case False
  obtain res w where c: "CreatePR gh r (world s) = (res, w)" by (cases "CreatePR gh r (world s)")
  show ?thesis
  proof (cases res)
    case (Inl e)
    with assms False c have "prs' = prs"
      and "trace s' = trace s @ [EvCreatePR r (Inl e), EvLogError ''Error Submitting PR: %s'' e]"
      by (auto simp: submitPR_def callCreatePR_def logError_def)
    with False show ?thesis by simp
  next
    case (Inr u)
    with assms False c have "prs' = prs @ [\<lparr>env = Env m, url = u, err = None\<rparr>]"
      and "trace s' = trace s @ [EvCreatePR r (Inr u)]"
      by (auto simp: submitPR_def callCreatePR_def)
    with False show ?thesis by simp
  qed
qed

lemma processManifest_effect:
  assumes "processManifest gh cfg app version m (prs, s) = (prs', s')"
  shows "\<exists>evs es. trace s' = trace s @ evs \<and> prs' = prs @ es
           \<and> map url es = openedURLs evs
           \<and> (\<forall>pr \<in> set es. err pr = None \<and> env pr = Env m)
           \<and> length es \<le> 1
           \<and> (es \<noteq> [] \<longrightarrow> shouldProcess m version \<and> \<not> CommitWithoutPR m)"
proof (cases "shouldProcess m version")
  case False
  with assms have "prs' = prs" "s' = s" by (simp_all add: processManifest_def)
  then show ?thesis by simp
next
  case True
  obtain r1 olds s1 where
    rw: "rewriteFiles gh app version (Files m) (newRelease cfg app m version, [], s) = (r1, olds, s1)"
    by (metis prod_cases3)
  define r where
    "r = SetBody r1 (generateBody app m version (rangeKeys gh olds (world s1)))"
  obtain ce w2 where c: "Commit gh r (world s1) = (ce, w2)" by (cases "Commit gh r (world s1)")
  define s2 where "s2 = \<lparr>world = w2, trace = trace s1 @ [EvCommit r ce]\<rparr>"
  from rewriteFiles_effect [OF rw] obtain evs1 where
    e1: "trace s1 = trace s @ evs1" "list_all isMakeChange evs1" by blast
  note q = makeChanges_quiet [OF e1(2)]
  show ?thesis
  proof (cases ce)
    case (Some e)
    with assms True rw c have "prs' = prs"
      and "trace s' = trace s1 @ [EvCommit r ce, EvLogError ''Error Commiting: %s'' e]"
      by (auto simp: processManifest_def Let_def callCommit_def logError_def r_def)
    with e1 q show ?thesis by (simp add: openedURLs_append)
  next
    case None
    with assms True rw c have "submitPR gh m r (prs, s2) = (prs', s')"
      by (simp add: processManifest_def Let_def callCommit_def r_def s2_def)
    from submitPR_effect [OF this] obtain evs es where
      "trace s' = trace s2 @ evs" "prs' = prs @ es" "map url es = openedURLs evs"
      "\<forall>pr \<in> set es. err pr = None \<and> env pr = Env m" "length es \<le> 1"
      "es \<noteq> [] \<longrightarrow> \<not> CommitWithoutPR m"
      by blast
    with e1 q True show ?thesis
      by (intro exI [of _ "evs1 @ EvCommit r ce # evs"] exI [of _ es])
         (simp add: s2_def openedURLs_append)
  qed
qed

lemma processManifests_effect:
  "processManifests gh cfg app version ms (prs, s) = (prs', s')
   \<Longrightarrow> \<exists>evs es. trace s' = trace s @ evs \<and> prs' = prs @ es
           \<and> map url es = openedURLs evs
           \<and> (\<forall>pr \<in> set es. err pr = None)
           \<and> subseq (map env es)
                (map Env (filter (\<lambda>m. shouldProcess m version \<and> \<not> CommitWithoutPR m) ms))"
proof (induction ms arbitrary: prs s)
  case Nil
  then show ?case by simp
next
  case (Cons m ms)
  obtain prs1 s1 where
    step: "processManifest gh cfg app version m (prs, s) = (prs1, s1)"
    by (cases "processManifest gh cfg app version m (prs, s)")
  with Cons.prems have "processManifests gh cfg app version ms (prs1, s1) = (prs', s')"
    by simp
  from Cons.IH [OF this] obtain evs2 es2 where
    r2: "trace s' = trace s1 @ evs2" "prs' = prs1 @ es2" "map url es2 = openedURLs evs2"
      "\<forall>pr \<in> set es2. err pr = None"
      "subseq (map env es2)
         (map Env (filter (\<lambda>m. shouldProcess m version \<and> \<not> CommitWithoutPR m) ms))"
    by blast
  from processManifest_effect [OF step] obtain evs1 es1 where
    r1: "trace s1 = trace s @ evs1" "prs1 = prs @ es1" "map url es1 = openedURLs evs1"
      "\<forall>pr \<in> set es1. err pr = None \<and> env pr = Env m" "length es1 \<le> 1"
      "es1 \<noteq> [] \<longrightarrow> shouldProcess m version \<and> \<not> CommitWithoutPR m"
    by blast
  have "subseq (map env (es1 @ es2))
          (map Env (filter (\<lambda>m. shouldProcess m version \<and> \<not> CommitWithoutPR m) (m # ms)))"
  proof (cases es1)
    case Nil
    with r2(5) show ?thesis by (simp add: list_emb_Cons)
  next
    case (Cons pr rest)
    with r1(5) have "rest = []" by simp
    with Cons r1(4,6) r2(5) show ?thesis by simp
  qed
  with r1 r2 show ?case
    by (intro exI [of _ "evs1 @ evs2"] exI [of _ "es1 @ es2"])
       (auto simp: openedURLs_append)
qed

section \<open>The result sequence\<close>

text \<open>
  Claim C2, as stated, fails. All four manifests of the example pass \<open>shouldProcess\<close>;
  the commit for \<open>stg\<close> fails, the pull request for \<open>qa\<close> fails and \<open>dev\<close> commits
  without a pull request. The result has the one entry of \<open>prod\<close>: the failures are
  logged and dropped, they are not entries that carry the error.
\<close>

theorem process_result_entries_counterexample:
  "Manifests exampleApplication
     = [exampleManifest\<lparr>Env := ''stg''\<rparr>, exampleManifest\<lparr>Env := ''qa''\<rparr>, exampleManifest,
        exampleManifest\<lparr>Env := ''dev'', CommitWithoutPR := True\<rparr>]
   \<and> shouldProcess (exampleManifest\<lparr>Env := ''stg''\<rparr>) ''v1.2.3''
   \<and> shouldProcess (exampleManifest\<lparr>Env := ''qa''\<rparr>) ''v1.2.3''
   \<and> shouldProcess exampleManifest ''v1.2.3''
   \<and> shouldProcess (exampleManifest\<lparr>Env := ''dev'', CommitWithoutPR := True\<rparr>) ''v1.2.3''
   \<and> fst (process exampleGitHub exampleConfig exampleApplication ''v1.2.3''
            \<lparr>world = 0, trace = []\<rparr>)
       = [\<lparr>env = ''prod'',
           url = ''https://github.com/org/manifests/pull/rollout/prod-app-v1.2.3'',
           err = None\<rparr>]"
  by (simp add: example_defs process_defs)

lemma makeChange_release:
  "\<exists>c. fst (makeChange gh path regex replacement acc) = (fst acc)\<lparr>changedContentMap := c\<rparr>"
  by (cases acc) (auto simp: makeChange_def callMakeChangeFunc_def split: prod.splits)

lemma rewriteKeys_release:
  "\<exists>c. fst (rewriteKeys gh version path keys acc) = (fst acc)\<lparr>changedContentMap := c\<rparr>"
proof (induction keys arbitrary: acc)
  case Nil
  show ?case by (intro exI [of _ "changedContentMap (fst acc)"]) simp
next
  case (Cons key keys)
  define acc1 where
    "acc1 = makeChange gh path (additionalRewriteKeysRegexTemplate key) (key @ '': '' @ version) acc"
  from Cons.IH [of acc1] obtain c where
    "fst (rewriteKeys gh version path keys acc1) = (fst acc1)\<lparr>changedContentMap := c\<rparr>"
    by blast
  moreover obtain c1 where "fst acc1 = (fst acc)\<lparr>changedContentMap := c1\<rparr>"
    unfolding acc1_def using makeChange_release by blast
  ultimately show ?case by (intro exI [of _ c]) (simp add: acc1_def)
qed

lemma rewritePrefixes_release:
  "\<exists>c. fst (rewritePrefixes gh version path pres acc) = (fst acc)\<lparr>changedContentMap := c\<rparr>"
proof (induction pres arbitrary: acc)
  case Nil
  show ?case by (intro exI [of _ "changedContentMap (fst acc)"]) simp
next
  case (Cons pre pres)
  define acc1 where
    "acc1 = makeChange gh path (additionalRewritePrefixRegexTemplate pre) (pre @ version) acc"
  from Cons.IH [of acc1] obtain c where
    "fst (rewritePrefixes gh version path pres acc1) = (fst acc1)\<lparr>changedContentMap := c\<rparr>"
    by blast
  moreover obtain c1 where "fst acc1 = (fst acc)\<lparr>changedContentMap := c1\<rparr>"
    unfolding acc1_def using makeChange_release by blast
  ultimately show ?case by (intro exI [of _ c]) (simp add: acc1_def)
qed

lemma rewriteFiles_release:
  "\<exists>c. fst (rewriteFiles gh app version paths acc) = (fst acc)\<lparr>changedContentMap := c\<rparr>"
proof (induction paths arbitrary: acc)
  case Nil
  show ?case by (intro exI [of _ "changedContentMap (fst acc)"]) simp
next
  case (Cons path paths)
  define acc1 where
    "acc1 = makeChange gh path (imageRewriteRegexTemplate (Image app))
              (Image app @ '':'' @ version) acc"
  define acc2 where
    "acc2 = makeChange gh path versionRewriteRegex (''version: '' @ version) acc1"
  define acc3 where "acc3 = rewriteKeys gh version path (AdditionalRewriteKeys app) acc2"
  define acc4 where "acc4 = rewritePrefixes gh version path (AdditionalRewritePrefix app) acc3"
  obtain c1 where "fst acc1 = (fst acc)\<lparr>changedContentMap := c1\<rparr>"
    unfolding acc1_def using makeChange_release by blast
  moreover obtain c2 where "fst acc2 = (fst acc1)\<lparr>changedContentMap := c2\<rparr>"
    unfolding acc2_def using makeChange_release by blast
  moreover obtain c3 where "fst acc3 = (fst acc2)\<lparr>changedContentMap := c3\<rparr>"
    unfolding acc3_def using rewriteKeys_release by blast
  moreover obtain c4 where "fst acc4 = (fst acc3)\<lparr>changedContentMap := c4\<rparr>"
    unfolding acc4_def using rewritePrefixes_release by blast
  moreover from Cons.IH [of acc4] obtain c where
    "fst (rewriteFiles gh app version paths acc4) = (fst acc4)\<lparr>changedContentMap := c\<rparr>"
    by blast
  ultimately show ?case
    by (intro exI [of _ c]) (simp add: acc1_def acc2_def acc3_def acc4_def Let_def)
qed

lemma processManifests_append:
  "processManifests gh cfg app version (xs @ ys) acc
     = processManifests gh cfg app version ys (processManifests gh cfg app version xs acc)"
  by (induction xs arbitrary: acc) simp_all

text \<open>
  Claim C2, amended. The result sequence returned by \<open>process\<close> has exactly one entry
  for each manifest that passed \<open>shouldProcess\<close>, does not commit without a pull
  request, and whose commit and pull request both succeeded; the entry carries the
  environment of that manifest and the URL of its pull request, and no error. A manifest
  whose commit or pull request failed has no entry: the error is logged and the loop
  goes on with the next manifest.

  In the theorem: first what holds of a whole run (as many entries as pull requests
  opened, with their URLs in order; never an error; environments of distinct eligible
  manifests in the order of the manifests). Then what \<open>process\<close> does at a manifest
  \<open>m\<close> that it reaches with the result \<open>prs\<close> and in the state \<open>s\<close>: it goes on
  with the manifests that follow from what the loop body returns, and the loop body
  returns the following. A manifest that does not pass the filter changes nothing.
  Otherwise, after the rewriting, which changes of the release only the content it
  holds, the release \<open>r\<close> with its body is committed. When the commit fails, the result
  is unchanged, the error is logged and \<open>CreatePR\<close> is not called. When it succeeds and
  the manifest commits without a pull request, the result and the state are unchanged.
  When the pull request fails, the result is unchanged and the error is logged. When it
  succeeds with the URL \<open>u\<close>, the one entry with the environment of \<open>m\<close>, the URL \<open>u\<close>
  and no error is appended.
\<close>

theorem process_result_entries:
  "(\<exists>evs. trace (snd (process gh cfg app version s0)) = trace s0 @ evs
       \<and> map url (fst (process gh cfg app version s0)) = openedURLs evs
       \<and> (\<forall>pr \<in> set (fst (process gh cfg app version s0)). err pr = None)
       \<and> subseq (map env (fst (process gh cfg app version s0)))
            (map Env (filter (\<lambda>m. shouldProcess m version \<and> \<not> CommitWithoutPR m)
                        (Manifests app))))
   \<and> (Manifests app = before @ m # rest
        \<and> processManifests gh cfg app version before ([], s0) = (prs, s)
      \<longrightarrow> process gh cfg app version s0
            = processManifests gh cfg app version rest
                (processManifest gh cfg app version m (prs, s)))
   \<and> (\<not> shouldProcess m version
      \<longrightarrow> processManifest gh cfg app version m (prs, s) = (prs, s))
   \<and> (shouldProcess m version
        \<and> rewriteFiles gh app version (Files m) (newRelease cfg app m version, [], s)
            = (r1, olds, s1)
        \<and> r = SetBody r1 (generateBody app m version (rangeKeys gh olds (world s1)))
      \<longrightarrow> (\<exists>c. r1 = (newRelease cfg app m version)\<lparr>changedContentMap := c\<rparr>)
        \<and> (callCommit gh r s1 = (Some ce, s2)
             \<longrightarrow> processManifest gh cfg app version m (prs, s)
                   = (prs, logError ''Error Commiting: %s'' ce s2))
        \<and> (callCommit gh r s1 = (None, s2) \<and> CommitWithoutPR m
             \<longrightarrow> processManifest gh cfg app version m (prs, s) = (prs, s2))
        \<and> (callCommit gh r s1 = (None, s2) \<and> \<not> CommitWithoutPR m
               \<and> callCreatePR gh r s2 = (Inl pe, s3)
             \<longrightarrow> processManifest gh cfg app version m (prs, s)
                   = (prs, logError ''Error Submitting PR: %s'' pe s3))
        \<and> (callCommit gh r s1 = (None, s2) \<and> \<not> CommitWithoutPR m
               \<and> callCreatePR gh r s2 = (Inr u, s3)
             \<longrightarrow> processManifest gh cfg app version m (prs, s)
                   = (prs @ [\<lparr>env = Env m, url = u, err = None\<rparr>], s3)))"
proof (intro conjI impI)
  show "\<exists>evs. trace (snd (process gh cfg app version s0)) = trace s0 @ evs
       \<and> map url (fst (process gh cfg app version s0)) = openedURLs evs
       \<and> (\<forall>pr \<in> set (fst (process gh cfg app version s0)). err pr = None)
       \<and> subseq (map env (fst (process gh cfg app version s0)))
            (map Env (filter (\<lambda>m. shouldProcess m version \<and> \<not> CommitWithoutPR m)
                        (Manifests app)))"
    using processManifests_effect
            [of gh cfg app version "Manifests app" "[]" s0
                "fst (process gh cfg app version s0)" "snd (process gh cfg app version s0)"]
    by (auto simp: process_def)
next
  assume "Manifests app = before @ m # rest
        \<and> processManifests gh cfg app version before ([], s0) = (prs, s)"
  then show "process gh cfg app version s0
            = processManifests gh cfg app version rest
                (processManifest gh cfg app version m (prs, s))"
    by (simp add: process_def processManifests_append)
next
  assume "\<not> shouldProcess m version"
  then show "processManifest gh cfg app version m (prs, s) = (prs, s)"
    by (simp add: processManifest_def)
next
  assume h: "shouldProcess m version
        \<and> rewriteFiles gh app version (Files m) (newRelease cfg app m version, [], s)
            = (r1, olds, s1)
        \<and> r = SetBody r1 (generateBody app m version (rangeKeys gh olds (world s1)))"
  with rewriteFiles_release [of gh app version "Files m" "(newRelease cfg app m version, [], s)"]
  show "\<exists>c. r1 = (newRelease cfg app m version)\<lparr>changedContentMap := c\<rparr>"
    by simp
next
  assume h: "shouldProcess m version
        \<and> rewriteFiles gh app version (Files m) (newRelease cfg app m version, [], s)
            = (r1, olds, s1)
        \<and> r = SetBody r1 (generateBody app m version (rangeKeys gh olds (world s1)))"
    and c: "callCommit gh r s1 = (Some ce, s2)"
  from h have sp: "shouldProcess m version"
    and rw: "rewriteFiles gh app version (Files m) (newRelease cfg app m version, [], s)
               = (r1, olds, s1)"
    and r: "r = SetBody r1 (generateBody app m version (rangeKeys gh olds (world s1)))"
    by blast+
  from c show "processManifest gh cfg app version m (prs, s)
                 = (prs, logError ''Error Commiting: %s'' ce s2)"
    by (simp add: processManifest_def Let_def sp rw r)
next
  assume h: "shouldProcess m version
        \<and> rewriteFiles gh app version (Files m) (newRelease cfg app m version, [], s)
            = (r1, olds, s1)
        \<and> r = SetBody r1 (generateBody app m version (rangeKeys gh olds (world s1)))"
    and c: "callCommit gh r s1 = (None, s2) \<and> CommitWithoutPR m"
  from h have sp: "shouldProcess m version"
    and rw: "rewriteFiles gh app version (Files m) (newRelease cfg app m version, [], s)
               = (r1, olds, s1)"
    and r: "r = SetBody r1 (generateBody app m version (rangeKeys gh olds (world s1)))"
    by blast+
  from c show "processManifest gh cfg app version m (prs, s) = (prs, s2)"
    by (simp add: processManifest_def Let_def submitPR_def sp rw r)
next
  assume h: "shouldProcess m version
        \<and> rewriteFiles gh app version (Files m) (newRelease cfg app m version, [], s)
            = (r1, olds, s1)
        \<and> r = SetBody r1 (generateBody app m version (rangeKeys gh olds (world s1)))"
    and c: "callCommit gh r s1 = (None, s2) \<and> \<not> CommitWithoutPR m
               \<and> callCreatePR gh r s2 = (Inl pe, s3)"
  from h have sp: "shouldProcess m version"
    and rw: "rewriteFiles gh app version (Files m) (newRelease cfg app m version, [], s)
               = (r1, olds, s1)"
    and r: "r = SetBody r1 (generateBody app m version (rangeKeys gh olds (world s1)))"
    by blast+
  from c show "processManifest gh cfg app version m (prs, s)
                 = (prs, logError ''Error Submitting PR: %s'' pe s3)"
    by (simp add: processManifest_def Let_def submitPR_def sp rw r)
next
  assume h: "shouldProcess m version
        \<and> rewriteFiles gh app version (Files m) (newRelease cfg app m version, [], s)
            = (r1, olds, s1)
        \<and> r = SetBody r1 (generateBody app m version (rangeKeys gh olds (world s1)))"
    and c: "callCommit gh r s1 = (None, s2) \<and> \<not> CommitWithoutPR m
               \<and> callCreatePR gh r s2 = (Inr u, s3)"
  from h have sp: "shouldProcess m version"
    and rw: "rewriteFiles gh app version (Files m) (newRelease cfg app m version, [], s)
               = (r1, olds, s1)"
    and r: "r = SetBody r1 (generateBody app m version (rangeKeys gh olds (world s1)))"
    by blast+
  from c show "processManifest gh cfg app version m (prs, s)
                 = (prs @ [\<lparr>env = Env m, url = u, err = None\<rparr>], s3)"
    by (simp add: processManifest_def Let_def submitPR_def sp rw r)
qed


text \<open>
  Witness for C2: the four manifests of the example, one for each way through the loop
  body (commit failed, pull request failed, pull request opened, commit without a pull
  request), a version that the filter rejects, and the whole run.
\<close>

theorem process_result_entries_witness:
  "processManifest exampleGitHub exampleConfig exampleApplication ''latest'' exampleManifest
       ([], \<lparr>world = 0, trace = []\<rparr>) = ([], \<lparr>world = 0, trace = []\<rparr>)
   \<and> fst (processManifest exampleGitHub exampleConfig exampleApplication ''v1.2.3''
            (exampleManifest\<lparr>Env := ''stg''\<rparr>) ([], \<lparr>world = 0, trace = []\<rparr>)) = []
   \<and> last (trace (snd (processManifest exampleGitHub exampleConfig exampleApplication ''v1.2.3''
            (exampleManifest\<lparr>Env := ''stg''\<rparr>) ([], \<lparr>world = 0, trace = []\<rparr>))))
       = EvLogError ''Error Commiting: %s'' (ErrorString ''ref moved'')
   \<and> fst (processManifest exampleGitHub exampleConfig exampleApplication ''v1.2.3''
            (exampleManifest\<lparr>Env := ''qa''\<rparr>) ([], \<lparr>world = 0, trace = []\<rparr>)) = []
   \<and> last (trace (snd (processManifest exampleGitHub exampleConfig exampleApplication ''v1.2.3''
            (exampleManifest\<lparr>Env := ''qa''\<rparr>) ([], \<lparr>world = 0, trace = []\<rparr>))))
       = EvLogError ''Error Submitting PR: %s'' (ErrorString ''validation failed'')
   \<and> fst (processManifest exampleGitHub exampleConfig exampleApplication ''v1.2.3''
            exampleManifest ([], \<lparr>world = 0, trace = []\<rparr>))
       = [\<lparr>env = ''prod'',
           url = ''https://github.com/org/manifests/pull/rollout/prod-app-v1.2.3'',
           err = None\<rparr>]
   \<and> processManifest exampleGitHub exampleConfig exampleApplication ''v1.2.3''
         (exampleManifest\<lparr>Env := ''dev'', CommitWithoutPR := True\<rparr>)
         ([], \<lparr>world = 0, trace = []\<rparr>)
       = ([], snd (callCommit exampleGitHub
                 (SetBody (fst (rewriteFiles exampleGitHub exampleApplication ''v1.2.3''
                     [''deploy.yaml'']
                     (newRelease exampleConfig exampleApplication
                        (exampleManifest\<lparr>Env := ''dev'', CommitWithoutPR := True\<rparr>) ''v1.2.3'',
                      [], \<lparr>world = 0, trace = []\<rparr>)))
                    (generateBody exampleApplication
                       (exampleManifest\<lparr>Env := ''dev'', CommitWithoutPR := True\<rparr>) ''v1.2.3''
                       [''v1.2.2'']))
                 \<lparr>world = 0,
                    trace = [EvMakeChange ''deploy.yaml'' ''registry/app:(?<version>.*)''
                               ''registry/app:v1.2.3'',
                             EvMakeChange ''deploy.yaml'' versionRewriteRegex
                               ''version: v1.2.3'']\<rparr>))
   \<and> fst (process exampleGitHub exampleConfig exampleApplication ''v1.2.3''
            \<lparr>world = 0, trace = []\<rparr>)
       = [\<lparr>env = ''prod'',
           url = ''https://github.com/org/manifests/pull/rollout/prod-app-v1.2.3'',
           err = None\<rparr>]"
proof -
  let ?s = "\<lparr>world = 0 :: nat, trace = []\<rparr>"
  have latest: "processManifest exampleGitHub exampleConfig exampleApplication ''latest''
       exampleManifest ([], ?s) = ([], ?s)"
    using process_result_entries
      [where gh = exampleGitHub and cfg = exampleConfig and app = exampleApplication
         and version = "''latest''" and m = exampleManifest and prs = "[]" and s = ?s]
    by (simp add: shouldProcess_def)
  let ?mA = "exampleManifest\<lparr>Env := ''stg''\<rparr>"
  let ?rwA = "rewriteFiles exampleGitHub exampleApplication ''v1.2.3'' (Files ?mA)
                 (newRelease exampleConfig exampleApplication ?mA ''v1.2.3'', [], ?s)"
  let ?rA = "SetBody (fst ?rwA)
                (generateBody exampleApplication ?mA ''v1.2.3''
                   (rangeKeys exampleGitHub (fst (snd ?rwA)) (world (snd (snd ?rwA)))))"
  let ?cA = "callCommit exampleGitHub ?rA (snd (snd ?rwA))"
  let ?pA = "callCreatePR exampleGitHub ?rA (snd ?cA)"
  have hA: "shouldProcess ?mA ''v1.2.3''
      \<and> ?rwA = (fst ?rwA, fst (snd ?rwA), snd (snd ?rwA))
      \<and> ?rA = ?rA"
    by (simp add: example_defs shouldProcess_def)
  note tA = process_result_entries
    [where gh = exampleGitHub and cfg = exampleConfig and app = exampleApplication
       and version = "''v1.2.3''" and m = ?mA and prs = "[]" and s = ?s and ?s0.0 = ?s
       and ?r1.0 = "fst ?rwA" and olds = "fst (snd ?rwA)" and ?s1.0 = "snd (snd ?rwA)"
       and r = ?rA and ?s2.0 = "snd ?cA" and ?s3.0 = "snd ?pA"]
  have cA: "?cA = (Some (ErrorString ''ref moved''), snd ?cA)"
    by (simp add: example_defs process_defs)
  from tA [where ce = "ErrorString ''ref moved''"] hA cA
  have stg: "processManifest exampleGitHub exampleConfig exampleApplication ''v1.2.3'' ?mA
               ([], ?s) = ([], logError ''Error Commiting: %s'' (ErrorString ''ref moved'') (snd ?cA))"
    by blast
  let ?mB = "exampleManifest\<lparr>Env := ''qa''\<rparr>"
  let ?rwB = "rewriteFiles exampleGitHub exampleApplication ''v1.2.3'' (Files ?mB)
                 (newRelease exampleConfig exampleApplication ?mB ''v1.2.3'', [], ?s)"
  let ?rB = "SetBody (fst ?rwB)
                (generateBody exampleApplication ?mB ''v1.2.3''
                   (rangeKeys exampleGitHub (fst (snd ?rwB)) (world (snd (snd ?rwB)))))"
  let ?cB = "callCommit exampleGitHub ?rB (snd (snd ?rwB))"
  let ?pB = "callCreatePR exampleGitHub ?rB (snd ?cB)"
  have hB: "shouldProcess ?mB ''v1.2.3''
      \<and> ?rwB = (fst ?rwB, fst (snd ?rwB), snd (snd ?rwB))
      \<and> ?rB = ?rB"
    by (simp add: example_defs shouldProcess_def)
  note tB = process_result_entries
    [where gh = exampleGitHub and cfg = exampleConfig and app = exampleApplication
       and version = "''v1.2.3''" and m = ?mB and prs = "[]" and s = ?s and ?s0.0 = ?s
       and ?r1.0 = "fst ?rwB" and olds = "fst (snd ?rwB)" and ?s1.0 = "snd (snd ?rwB)"
       and r = ?rB and ?s2.0 = "snd ?cB" and ?s3.0 = "snd ?pB"]
  have cB: "?cB = (None, snd ?cB) \<and> \<not> CommitWithoutPR ?mB
           \<and> ?pB = (Inl (ErrorString ''validation failed''), snd ?pB)"
    by (simp add: example_defs process_defs)
  from tB [where pe = "ErrorString ''validation failed''"] hB cB
  have qa: "processManifest exampleGitHub exampleConfig exampleApplication ''v1.2.3'' ?mB
              ([], ?s)
            = ([], logError ''Error Submitting PR: %s'' (ErrorString ''validation failed'')
                     (snd ?pB))"
    by blast
  let ?mC = "exampleManifest"
  let ?rwC = "rewriteFiles exampleGitHub exampleApplication ''v1.2.3'' (Files ?mC)
                 (newRelease exampleConfig exampleApplication ?mC ''v1.2.3'', [], ?s)"
  let ?rC = "SetBody (fst ?rwC)
                (generateBody exampleApplication ?mC ''v1.2.3''
                   (rangeKeys exampleGitHub (fst (snd ?rwC)) (world (snd (snd ?rwC)))))"
  let ?cC = "callCommit exampleGitHub ?rC (snd (snd ?rwC))"
  let ?pC = "callCreatePR exampleGitHub ?rC (snd ?cC)"
  have hC: "shouldProcess ?mC ''v1.2.3''
      \<and> ?rwC = (fst ?rwC, fst (snd ?rwC), snd (snd ?rwC))
      \<and> ?rC = ?rC"
    by (simp add: example_defs shouldProcess_def)
  note tC = process_result_entries
    [where gh = exampleGitHub and cfg = exampleConfig and app = exampleApplication
       and version = "''v1.2.3''" and m = ?mC and prs = "[]" and s = ?s and ?s0.0 = ?s
       and ?r1.0 = "fst ?rwC" and olds = "fst (snd ?rwC)" and ?s1.0 = "snd (snd ?rwC)"
       and r = ?rC and ?s2.0 = "snd ?cC" and ?s3.0 = "snd ?pC"]
  have cC: "?cC = (None, snd ?cC) \<and> \<not> CommitWithoutPR ?mC
           \<and> ?pC = (Inr ''https://github.com/org/manifests/pull/rollout/prod-app-v1.2.3'',
                     snd ?pC)"
    by (simp add: example_defs process_defs)
  from tC [where u = "''https://github.com/org/manifests/pull/rollout/prod-app-v1.2.3''"] hC cC
  have prod: "processManifest exampleGitHub exampleConfig exampleApplication ''v1.2.3'' ?mC
                ([], ?s)
              = ([] @ [\<lparr>env = Env ?mC,
                         url = ''https://github.com/org/manifests/pull/rollout/prod-app-v1.2.3'',
                         err = None\<rparr>], snd ?pC)"
    by blast
  let ?mD = "exampleManifest\<lparr>Env := ''dev'', CommitWithoutPR := True\<rparr>"
  let ?rwD = "rewriteFiles exampleGitHub exampleApplication ''v1.2.3'' (Files ?mD)
                 (newRelease exampleConfig exampleApplication ?mD ''v1.2.3'', [], ?s)"
  let ?rD = "SetBody (fst ?rwD)
                (generateBody exampleApplication ?mD ''v1.2.3''
                   (rangeKeys exampleGitHub (fst (snd ?rwD)) (world (snd (snd ?rwD)))))"
  let ?cD = "callCommit exampleGitHub ?rD (snd (snd ?rwD))"
  let ?pD = "callCreatePR exampleGitHub ?rD (snd ?cD)"
  have hD: "shouldProcess ?mD ''v1.2.3''
      \<and> ?rwD = (fst ?rwD, fst (snd ?rwD), snd (snd ?rwD))
      \<and> ?rD = ?rD"
    by (simp add: example_defs shouldProcess_def)
  note tD = process_result_entries
    [where gh = exampleGitHub and cfg = exampleConfig and app = exampleApplication
       and version = "''v1.2.3''" and m = ?mD and prs = "[]" and s = ?s and ?s0.0 = ?s
       and ?r1.0 = "fst ?rwD" and olds = "fst (snd ?rwD)" and ?s1.0 = "snd (snd ?rwD)"
       and r = ?rD and ?s2.0 = "snd ?cD" and ?s3.0 = "snd ?pD"]
  have cD: "?cD = (None, snd ?cD) \<and> CommitWithoutPR ?mD"
    by (simp add: example_defs process_defs)
  from tD hD cD
  have dev: "processManifest exampleGitHub exampleConfig exampleApplication ''v1.2.3'' ?mD
               ([], ?s) = ([], snd ?cD)"
    by blast
  have run: "Manifests exampleApplication = [] @ ?mA # [?mB, ?mC, ?mD]
      \<and> processManifests exampleGitHub exampleConfig exampleApplication ''v1.2.3'' [] ([], ?s)
          = ([], ?s)"
    by (simp add: exampleApplication_def)
  from tA [where before = "[]" and rest = "[?mB, ?mC, ?mD]"] run
  have whole: "process exampleGitHub exampleConfig exampleApplication ''v1.2.3'' ?s
      = processManifests exampleGitHub exampleConfig exampleApplication ''v1.2.3''
          [?mB, ?mC, ?mD]
          (processManifest exampleGitHub exampleConfig exampleApplication ''v1.2.3'' ?mA ([], ?s))"
    by blast
  from latest stg qa prod dev whole show ?thesis
    by (simp add: example_defs process_defs)
qed


section \<open>Committing without a pull request\<close>

lemma SetBody_Repo: "Repo (SetBody r b) = Repo r"
  by (simp add: SetBody_def)

lemma processManifest_direct:
  assumes "CommitWithoutPR m"
  shows "fst (processManifest gh cfg app version m (prs, s)) = prs
       \<and> (\<exists>evs. trace (snd (processManifest gh cfg app version m (prs, s))) = trace s @ evs
              \<and> createPRCalls evs = []
              \<and> (shouldProcess m version \<longrightarrow>
                   (\<exists>r. commitCalls evs = [r] \<and> Repo r = Repo (newRelease cfg app m version))))"
proof (cases "shouldProcess m version")
  case False
  then show ?thesis by (simp add: processManifest_def)
next
  case True
  obtain r1 olds s1 where
    rw: "rewriteFiles gh app version (Files m) (newRelease cfg app m version, [], s) = (r1, olds, s1)"
    by (metis prod_cases3)
  define r where
    "r = SetBody r1 (generateBody app m version (rangeKeys gh olds (world s1)))"
  obtain ce w2 where c: "Commit gh r (world s1) = (ce, w2)" by (cases "Commit gh r (world s1)")
  from rewriteFiles_effect [OF rw] obtain evs1 where
    e1: "trace s1 = trace s @ evs1" "list_all isMakeChange evs1"
      "Repo r1 = Repo (newRelease cfg app m version)"
    by blast
  note q = makeChanges_quiet [OF e1(2)]
  have rr: "Repo r = Repo (newRelease cfg app m version)"
    by (simp add: r_def SetBody_Repo e1(3))
  show ?thesis
  proof (cases ce)
    case (Some e)
    with True rw c have "fst (processManifest gh cfg app version m (prs, s)) = prs"
      and "trace (snd (processManifest gh cfg app version m (prs, s)))
             = trace s1 @ [EvCommit r ce, EvLogError ''Error Commiting: %s'' e]"
      by (auto simp: processManifest_def Let_def callCommit_def logError_def r_def)
    with e1 q rr True show ?thesis
      by (simp add: createPRCalls_append commitCalls_append)
  next
    case None
    with True rw c assms have "fst (processManifest gh cfg app version m (prs, s)) = prs"
      and "trace (snd (processManifest gh cfg app version m (prs, s)))
             = trace s1 @ [EvCommit r ce]"
      by (auto simp: processManifest_def Let_def callCommit_def submitPR_def r_def)
    with e1 q rr True show ?thesis
      by (simp add: createPRCalls_append commitCalls_append)
  qed
qed

text \<open>
  Claim C8. For a manifest that commits without a pull request, the commit branch of the
  release is its base branch; the loop body appends no entry to the result for it and
  calls \<open>CreatePR\<close> not once, and when the manifest passes the filter the one commit it
  attempts is on a release with these repository coordinates. For a manifest that does
  not commit without a pull request, the commit branch is the derived branch name.
\<close>

theorem commitWithoutPR_commits_to_base:
  "(CommitWithoutPR m \<longrightarrow>
      RepoCommitBranch (Repo (newRelease cfg app m version))
        = RepoBaseBranch (Repo (newRelease cfg app m version))
      \<and> fst (processManifest gh cfg app version m (prs, s)) = prs
      \<and> (\<exists>evs. trace (snd (processManifest gh cfg app version m (prs, s))) = trace s @ evs
             \<and> createPRCalls evs = []
             \<and> (shouldProcess m version \<longrightarrow>
                  (\<exists>r. commitCalls evs = [r] \<and> Repo r = Repo (newRelease cfg app m version)))))
   \<and> (\<not> CommitWithoutPR m \<longrightarrow>
        RepoCommitBranch (Repo (newRelease cfg app m version)) = getBranchName app m version)"
proof -
  have "RepoCommitBranch (Repo (newRelease cfg app m version))
          = (if CommitWithoutPR m then RepoBaseBranch (Repo (newRelease cfg app m version))
             else getBranchName app m version)"
    by (simp add: newRelease_def NewRelease_def Let_def)
  with processManifest_direct [of m gh cfg app version prs s] show ?thesis by simp
qed

text \<open>
  Witness for C8: the manifest \<open>dev\<close> of the example commits to \<open>main\<close>, adds no entry
  and opens no pull request; the manifest \<open>prod\<close> commits to its rollout branch.
\<close>

theorem commitWithoutPR_commits_to_base_witness:
  "RepoCommitBranch (Repo (newRelease exampleConfig exampleApplication
       (exampleManifest\<lparr>Env := ''dev'', CommitWithoutPR := True\<rparr>) ''v1.2.3'')) = ''main''
   \<and> fst (processManifest exampleGitHub exampleConfig exampleApplication ''v1.2.3''
        (exampleManifest\<lparr>Env := ''dev'', CommitWithoutPR := True\<rparr>)
        ([], \<lparr>world = 0, trace = []\<rparr>)) = []
   \<and> createPRCalls (trace (snd (processManifest exampleGitHub exampleConfig exampleApplication
        ''v1.2.3'' (exampleManifest\<lparr>Env := ''dev'', CommitWithoutPR := True\<rparr>)
        ([], \<lparr>world = 0, trace = []\<rparr>)))) = []
   \<and> RepoCommitBranch (Repo (newRelease exampleConfig exampleApplication exampleManifest
        ''v1.2.3'')) = ''rollout/prod-app-v1.2.3''"
  using commitWithoutPR_commits_to_base
          [of "exampleManifest\<lparr>Env := ''dev'', CommitWithoutPR := True\<rparr>"
              exampleConfig exampleApplication "''v1.2.3''" exampleGitHub "[]"
              "\<lparr>world = 0, trace = []\<rparr>"]
        commitWithoutPR_commits_to_base
          [of exampleManifest exampleConfig exampleApplication "''v1.2.3''" exampleGitHub "[]"
              "\<lparr>world = 0, trace = []\<rparr>"]
  by (simp add: example_defs process_defs)


section \<open>The retried commit\<close>

lemma processManifests_v0_append:
  "processManifests_v0 gh cfg app version (xs @ ys) acc
     = processManifests_v0 gh cfg app version ys (processManifests_v0 gh cfg app version xs acc)"
  by (induction xs arbitrary: acc) simp_all

lemma retry_loop_effect:
  "retry_loop k n commitDelayType gh (callCommit gh r) errs s = (res, s')
   \<Longrightarrow> \<exists>evs. trace s' = trace s @ evs \<and> length (commitCalls evs) \<le> k
          \<and> createPRCalls evs = [] \<and> openedURLs evs = []
          \<and> set (sleeps evs) \<subseteq> {3 * Second}"
proof (induction k arbitrary: n errs s)
  case 0
  then show ?case by simp
next
  case (Suc k)
  obtain ce w where c: "Commit gh r (world s) = (ce, w)" by (cases "Commit gh r (world s)")
  define s1 where "s1 = \<lparr>world = w, trace = trace s @ [EvCommit r ce]\<rparr>"
  from c have cc: "callCommit gh r s = (ce, s1)" by (simp add: callCommit_def s1_def)
  show ?case
  proof (cases "ce = None \<or> k = 0")
    case True
    with Suc.prems cc have "s' = s1" by (auto split: option.splits)
    then show ?thesis by (simp add: s1_def)
  next
    case False
    then obtain e where e: "ce = Some e" and k: "k \<noteq> 0" by auto
    with Suc.prems cc
    have "retry_loop k (Suc n) commitDelayType gh (callCommit gh r) (errs @ [e])
            (sleep gh (commitDelayType n) s1) = (res, s')"
      by simp
    from Suc.IH [OF this] obtain evs where
      "trace s' = trace (sleep gh (commitDelayType n) s1) @ evs"
      "length (commitCalls evs) \<le> k" "createPRCalls evs = []" "openedURLs evs = []"
      "set (sleeps evs) \<subseteq> {3 * Second}"
      by blast
    then show ?thesis
      by (intro exI [of _ "EvCommit r ce # EvSleep (3 * Second) # evs"])
         (simp add: s1_def sleep_def commitDelayType_def)
  qed
qed

lemma processManifest_v0_bounded:
  "\<exists>evs. trace (snd (processManifest_v0 gh cfg app version m (prs, s))) = trace s @ evs
      \<and> length (commitCalls evs) \<le> 3 \<and> set (sleeps evs) \<subseteq> {3 * Second}"
proof (cases "shouldProcess m version")
  case False
  then show ?thesis by (simp add: processManifest_v0_def)
next
  case True
  define r where "r = addFileChanges_v0 app version (Files m) (newRelease_v0 cfg app m version)"
  obtain res s1 where
    rt: "retry_loop 3 0 commitDelayType gh (callCommit gh r) [] s = (res, s1)"
    by (cases "retry_loop 3 0 commitDelayType gh (callCommit gh r) [] s")
  from retry_loop_effect [OF rt] obtain evs1 where
    e1: "trace s1 = trace s @ evs1" "length (commitCalls evs1) \<le> 3"
      "set (sleeps evs1) \<subseteq> {3 * Second}"
    by blast
  show ?thesis
  proof (cases res)
    case (Some e)
    with True rt have "trace (snd (processManifest_v0 gh cfg app version m (prs, s)))
        = trace s1 @ [EvLogError ''Error Commiting: %s'' e]"
      by (simp add: processManifest_v0_def Let_def retry_Do_def retryCommitTries_def r_def
            logError_def)
    with e1 show ?thesis
      by (intro exI [of _ "evs1 @ [EvLogError ''Error Commiting: %s'' e]"])
         (simp add: commitCalls_append sleeps_append)
  next
    case None
    obtain prs' s' where sp: "submitPR gh m r (prs, s1) = (prs', s')"
      by (cases "submitPR gh m r (prs, s1)")
    with None True rt have "snd (processManifest_v0 gh cfg app version m (prs, s)) = s'"
      by (simp add: processManifest_v0_def Let_def retry_Do_def retryCommitTries_def r_def)
    moreover from submitPR_effect [OF sp] obtain evs where
      "trace s' = trace s1 @ evs" "commitCalls evs = []" "sleeps evs = []"
      by blast
    ultimately show ?thesis using e1
      by (intro exI [of _ "evs1 @ evs"]) (simp add: commitCalls_append sleeps_append)
  qed
qed

text \<open>
  Claim C3. In the variant that retries, the loop body calls \<open>Commit\<close> at most three
  times for a manifest, and whenever it sleeps it sleeps three seconds. When the manifest
  passes the filter and the three attempts fail, the body has called \<open>Commit\<close> three
  times with a sleep of three seconds between two attempts, has logged the errors, has
  not called \<open>CreatePR\<close> and has appended nothing to the result; \<open>process\<close> goes on
  with the manifests that follow, from that state and with the result as it was.
\<close>

theorem commit_retry_exhausted:
  "(\<exists>evs. trace (snd (processManifest_v0 gh cfg app version m (prs, s))) = trace s @ evs
       \<and> length (commitCalls evs) \<le> 3 \<and> set (sleeps evs) \<subseteq> {3 * Second})
   \<and> (shouldProcess m version
      \<and> Manifests app = before @ m # rest
      \<and> processManifests_v0 gh cfg app version before ([], s0) = (prs, s)
      \<and> r = addFileChanges_v0 app version (Files m) (newRelease_v0 cfg app m version)
      \<and> callCommit gh r s = (Some e1, s1)
      \<and> callCommit gh r (sleep gh (3 * Second) s1) = (Some e2, s2)
      \<and> callCommit gh r (sleep gh (3 * Second) s2) = (Some e3, s3)
      \<and> s4 = logError ''Error Commiting: %s'' (RetryError [e1, e2, e3]) s3
      \<longrightarrow> processManifest_v0 gh cfg app version m (prs, s) = (prs, s4)
        \<and> trace s4 = trace s @ [EvCommit r (Some e1), EvSleep (3 * Second),
                                   EvCommit r (Some e2), EvSleep (3 * Second),
                                   EvCommit r (Some e3),
                                   EvLogError ''Error Commiting: %s'' (RetryError [e1, e2, e3])]
        \<and> process_v0 gh cfg app version s0
            = processManifests_v0 gh cfg app version rest (prs, s4))"
proof (intro conjI impI)
  show "\<exists>evs. trace (snd (processManifest_v0 gh cfg app version m (prs, s))) = trace s @ evs
       \<and> length (commitCalls evs) \<le> 3 \<and> set (sleeps evs) \<subseteq> {3 * Second}"
    by (rule processManifest_v0_bounded)
next
  assume h: "shouldProcess m version
      \<and> Manifests app = before @ m # rest
      \<and> processManifests_v0 gh cfg app version before ([], s0) = (prs, s)
      \<and> r = addFileChanges_v0 app version (Files m) (newRelease_v0 cfg app m version)
      \<and> callCommit gh r s = (Some e1, s1)
      \<and> callCommit gh r (sleep gh (3 * Second) s1) = (Some e2, s2)
      \<and> callCommit gh r (sleep gh (3 * Second) s2) = (Some e3, s3)
      \<and> s4 = logError ''Error Commiting: %s'' (RetryError [e1, e2, e3]) s3"
  then have sp: "shouldProcess m version"
    and c1: "callCommit gh (addFileChanges_v0 app version (Files m)
               (newRelease_v0 cfg app m version)) s = (Some e1, s1)"
    and c2: "callCommit gh (addFileChanges_v0 app version (Files m)
               (newRelease_v0 cfg app m version)) (sleep gh (3 * Second) s1) = (Some e2, s2)"
    and c3: "callCommit gh (addFileChanges_v0 app version (Files m)
               (newRelease_v0 cfg app m version)) (sleep gh (3 * Second) s2) = (Some e3, s3)"
    and s4: "s4 = logError ''Error Commiting: %s'' (RetryError [e1, e2, e3]) s3"
    by blast+
  have body: "processManifest_v0 gh cfg app version m (prs, s) = (prs, s4)"
    by (simp add: processManifest_v0_def Let_def retry_Do_def retryCommitTries_def
          commitDelayType_def numeral_3_eq_3 sp c1 c2 c3 s4)
  then show "processManifest_v0 gh cfg app version m (prs, s) = (prs, s4)" .
  from h have t1: "trace s1 = trace s @ [EvCommit r (Some e1)]"
    and t2: "trace s2 = trace (sleep gh (3 * Second) s1) @ [EvCommit r (Some e2)]"
    and t3: "trace s3 = trace (sleep gh (3 * Second) s2) @ [EvCommit r (Some e3)]"
    by (auto simp: callCommit_def split: prod.splits)
  with h show "trace s4 = trace s @ [EvCommit r (Some e1), EvSleep (3 * Second),
                                   EvCommit r (Some e2), EvSleep (3 * Second),
                                   EvCommit r (Some e3),
                                   EvLogError ''Error Commiting: %s'' (RetryError [e1, e2, e3])]"
    by (simp add: logError_def sleep_def)
  from h body show "process_v0 gh cfg app version s0
            = processManifests_v0 gh cfg app version rest (prs, s4)"
    by (simp add: process_v0_def processManifests_v0_append)
qed

text \<open>
  Witness for C3: in the example the three commits for \<open>stg\<close> fail, and the manifests
  after it are processed: the result holds the pull request of \<open>prod\<close>.
\<close>

theorem commit_retry_exhausted_witness:
  "fst (process_v0 exampleGitHub exampleConfig exampleApplication ''v1.2.3''
          \<lparr>world = 0, trace = []\<rparr>)
     = [\<lparr>env = ''prod'',
         url = ''https://github.com/org/manifests/pull/release/prod-app-v1.2.3'',
         err = None\<rparr>]
   \<and> length (commitCalls (trace (snd (processManifest_v0 exampleGitHub exampleConfig
        exampleApplication ''v1.2.3'' (exampleManifest\<lparr>Env := ''stg''\<rparr>)
        ([], \<lparr>world = 0, trace = []\<rparr>))))) = 3
   \<and> createPRCalls (trace (snd (processManifest_v0 exampleGitHub exampleConfig
        exampleApplication ''v1.2.3'' (exampleManifest\<lparr>Env := ''stg''\<rparr>)
        ([], \<lparr>world = 0, trace = []\<rparr>)))) = []"
proof -
  let ?m = "exampleManifest\<lparr>Env := ''stg''\<rparr>"
  let ?r = "addFileChanges_v0 exampleApplication ''v1.2.3'' (Files ?m)
              (newRelease_v0 exampleConfig exampleApplication ?m ''v1.2.3'')"
  let ?e = "ErrorString ''ref moved''"
  let ?s = "\<lparr>world = 0 :: nat, trace = []\<rparr>"
  let ?s1 = "\<lparr>world = 1 :: nat, trace = [EvCommit ?r (Some ?e)]\<rparr>"
  let ?s2 = "\<lparr>world = 2 :: nat,
              trace = [EvCommit ?r (Some ?e), EvSleep (3 * Second), EvCommit ?r (Some ?e)]\<rparr>"
  let ?s3 = "\<lparr>world = 3 :: nat,
              trace = [EvCommit ?r (Some ?e), EvSleep (3 * Second), EvCommit ?r (Some ?e),
                       EvSleep (3 * Second), EvCommit ?r (Some ?e)]\<rparr>"
  let ?s4 = "logError ''Error Commiting: %s'' (RetryError [?e, ?e, ?e]) ?s3"
  let ?rest = "[exampleManifest\<lparr>Env := ''qa''\<rparr>, exampleManifest,
                exampleManifest\<lparr>Env := ''dev'', CommitWithoutPR := True\<rparr>]"
  have "shouldProcess ?m ''v1.2.3''
      \<and> Manifests exampleApplication = [] @ ?m # ?rest
      \<and> processManifests_v0 exampleGitHub exampleConfig exampleApplication ''v1.2.3'' []
          ([], ?s) = ([], ?s)
      \<and> ?r = ?r
      \<and> callCommit exampleGitHub ?r ?s = (Some ?e, ?s1)
      \<and> callCommit exampleGitHub ?r (sleep exampleGitHub (3 * Second) ?s1) = (Some ?e, ?s2)
      \<and> callCommit exampleGitHub ?r (sleep exampleGitHub (3 * Second) ?s2) = (Some ?e, ?s3)
      \<and> ?s4 = ?s4"
    by (simp add: example_defs process_v0_defs)
  with commit_retry_exhausted
         [where gh = exampleGitHub and cfg = exampleConfig and app = exampleApplication
            and version = "''v1.2.3''" and m = ?m and before = "[]" and rest = ?rest
            and prs = "[]" and ?s0.0 = ?s and s = ?s and r = ?r and ?e1.0 = ?e
            and ?e2.0 = ?e and ?e3.0 = ?e and ?s1.0 = ?s1 and ?s2.0 = ?s2 and ?s3.0 = ?s3
            and ?s4.0 = ?s4]
  have "processManifest_v0 exampleGitHub exampleConfig exampleApplication ''v1.2.3'' ?m ([], ?s)
          = ([], ?s4)"
    and "process_v0 exampleGitHub exampleConfig exampleApplication ''v1.2.3'' ?s
          = processManifests_v0 exampleGitHub exampleConfig exampleApplication ''v1.2.3'' ?rest
              ([], ?s4)"
    by blast+
  then show ?thesis
    by (simp add: example_defs process_v0_defs numeral_3_eq_3)
qed

text \<open>
  In \<^verbatim>\<open>flow/process.go\<close> the loop body calls \<open>Commit\<close> once (whether \<open>Commit\<close>
  retries inside \<^verbatim>\<open>gitbot\<close> is not visible here); when it fails, the manifest is
  skipped in the same way and the loop goes on.
\<close>

lemma commit_failure_skips_manifest:
  assumes "shouldProcess m version"
    and "rewriteFiles gh app version (Files m) (newRelease cfg app m version, [], s)
           = (r1, olds, s1)"
    and "r = SetBody r1 (generateBody app m version (rangeKeys gh olds (world s1)))"
    and "callCommit gh r s1 = (Some e, s2)"
  shows "processManifests gh cfg app version (m # rest) (prs, s)
           = processManifests gh cfg app version rest
               (prs, logError ''Error Commiting: %s'' e s2)"
  using assms by (simp add: processManifest_def Let_def)


section \<open>The version-key rule and the marker\<close>

lemma prefix_restOfLine:
  "10 \<notin> set p \<Longrightarrow> prefix p (restOfLine s) \<longleftrightarrow> prefix p s"
  unfolding restOfLine_def
proof (induction p arbitrary: s)
  case Nil
  then show ?case by simp
next
  case (Cons x xs)
  then show ?case by (cases s) auto
qed

lemma restOfLine_idem: "restOfLine (restOfLine s) = restOfLine s"
  by (simp add: restOfLine_def)

lemma versionRuleMatchesAt_line:
  "restOfLine s = restOfLine t \<Longrightarrow> versionRuleMatchesAt s = versionRuleMatchesAt t"
proof -
  assume eq: "restOfLine s = restOfLine t"
  have "prefix (runes ''version: '') s = prefix (runes ''version: '') (restOfLine s)"
    by (rule prefix_restOfLine [symmetric]) (simp add: runes_def)
  also have "\<dots> = prefix (runes ''version: '') (restOfLine t)" by (simp add: eq)
  also have "\<dots> = prefix (runes ''version: '') t"
    by (rule prefix_restOfLine) (simp add: runes_def)
  finally show ?thesis by (simp add: versionRuleMatchesAt_def hasMarker_def eq)
qed

lemma last_dropWhile: "dropWhile P xs \<noteq> [] \<Longrightarrow> last (dropWhile P xs) = last xs"
  by (induction xs) (auto split: if_splits)

lemma applyVersionRule_after_newline:
  "pre = [] \<or> last pre = 10
   \<Longrightarrow> applyVersionRule version (pre @ s) = applyVersionRule version pre @ applyVersionRule version s"
proof (induction version pre rule: applyVersionRule.induct)
  case (1 version)
  then show ?case by simp
next
  case (2 version c cs)
  from "2.prems" have nl: "10 \<in> set (c # cs)"
    by (metis last_in_set list.distinct(1))
  then have line: "restOfLine ((c # cs) @ s) = restOfLine (c # cs)"
    unfolding restOfLine_def by (intro takeWhile_append1 [where x = "10"]) auto
  have m: "versionRuleMatchesAt (c # cs @ s) = versionRuleMatchesAt (c # cs)"
    using versionRuleMatchesAt_line [OF line] by simp
  show ?case
  proof (cases "versionRuleMatchesAt (c # cs)")
    case True
    from nl have d: "dropWhile (\<lambda>x. x \<noteq> 10) ((c # cs) @ s)
                       = dropWhile (\<lambda>x. x \<noteq> 10) (c # cs) @ s"
      by (intro dropWhile_append1 [where x = "10"]) auto
    from nl have ne: "dropWhile (\<lambda>x. x \<noteq> 10) (c # cs) \<noteq> []"
      by (simp only: dropWhile_eq_Nil_conv) blast
    from last_dropWhile [OF ne] "2.prems"
    have "last (dropWhile (\<lambda>x. x \<noteq> 10) (c # cs)) = 10"
      by simp
    with "2.IH"(1) [OF True] d True m show ?thesis by simp
  next
    case False
    from "2.prems" have "cs = [] \<or> last cs = 10" by (auto split: if_splits)
    with "2.IH"(2) [OF False] False m show ?thesis by simp
  qed
qed

lemma applyVersionRule_before_newline:
  assumes "10 \<notin> set l" and "post = [] \<or> hd post = 10"
  shows "applyVersionRule version (l @ post) = applyVersionRule version l @ applyVersionRule version post"
  using assms(1)
proof (induction l)
  case Nil
  then show ?case by simp
next
  case (Cons c cs)
  from assms(2) have tp: "takeWhile (\<lambda>x. x \<noteq> 10) post = []"
    by (cases post) auto
  from assms(2) have dp: "dropWhile (\<lambda>x. x \<noteq> 10) post = post"
    by (cases post) auto
  from Cons.prems have all: "\<forall>x \<in> set (c # cs). x \<noteq> 10" by auto
  then have "takeWhile (\<lambda>x. x \<noteq> 10) (c # cs) = c # cs"
    by (simp only: takeWhile_eq_all_conv) 
  moreover from all have "takeWhile (\<lambda>x. x \<noteq> 10) ((c # cs) @ post)
      = (c # cs) @ takeWhile (\<lambda>x. x \<noteq> 10) post"
    by (intro takeWhile_append2) auto
  ultimately have line: "restOfLine ((c # cs) @ post) = restOfLine (c # cs)"
    unfolding restOfLine_def by (simp only: tp append_Nil2)
  have m: "versionRuleMatchesAt (c # cs @ post) = versionRuleMatchesAt (c # cs)"
    using versionRuleMatchesAt_line [OF line] by simp
  show ?case
  proof (cases "versionRuleMatchesAt (c # cs)")
    case True
    from all have "dropWhile (\<lambda>x. x \<noteq> 10) (c # cs @ post) = post"
      and "dropWhile (\<lambda>x. x \<noteq> 10) (c # cs) = []"
      by (simp_all add: dp)
    with True m show ?thesis by simp
  next
    case False
    with Cons m show ?thesis by simp
  qed
qed

lemma applyVersionRule_guarded_line:
  assumes "\<forall>s. suffix s l \<and> prefix (runes ''version: '') s \<longrightarrow> hasMarker s"
  shows "applyVersionRule version l = l"
  using assms
proof (induction l)
  case Nil
  then show ?case by simp
next
  case (Cons c cs)
  from Cons.prems have "\<not> versionRuleMatchesAt (c # cs)"
    unfolding versionRuleMatchesAt_def by blast
  moreover from Cons.prems have "\<forall>s. suffix s cs \<and> prefix (runes ''version: '') s \<longrightarrow> hasMarker s"
    by (simp add: suffix_ConsI)
  ultimately show ?case using Cons.IH by simp
qed

lemma marker_guards_line:
  assumes l: "l = a @ mk @ c"
    and mk: "mk = runes ''do-not-rewrite'' \<or> mk = runes ''no-rewrite''"
    and c: "\<not> sublist (runes ''version: '') c"
    and nl: "10 \<notin> set l"
    and s: "suffix s l" and p: "prefix (runes ''version: '') s"
  shows "hasMarker s"
proof -
  from s nl have "10 \<notin> set s" by (meson set_mono_suffix subsetD)
  then have line: "restOfLine s = s" by (auto simp: restOfLine_def takeWhile_eq_all_conv)
  from s l have "suffix s c \<or> (\<exists>t. suffix t mk \<and> s = t @ c)
                   \<or> (\<exists>t. suffix t a \<and> s = t @ mk @ c)"
    by (auto simp: suffix_append)
  then have "suffix s c \<or> (\<exists>t. suffix t mk \<and> t \<noteq> [] \<and> s = t @ c)
                   \<or> (\<exists>t. suffix t a \<and> s = t @ mk @ c)"
    by (metis append_Nil suffix_order.refl)
  then consider (tail) "suffix s c" | (mid) t where "suffix t mk" "t \<noteq> []" "s = t @ c"
    | (front) t where "suffix t a" "s = t @ mk @ c"
    by blast
  then show ?thesis
  proof cases
    case tail
    with p have "sublist (runes ''version: '') c"
      by (meson prefix_imp_sublist sublist_order.order_trans suffix_imp_sublist)
    with c show ?thesis by simp
  next
    case (mid t)
    show ?thesis
    proof (cases "t = mk")
      case True
      with mid have "sublist mk s" by simp
      with mk line show ?thesis by (auto simp: hasMarker_def)
    next
      case False
      from mid(2) p mid(3) have "hd t = 118" by (cases t) (auto simp: runes_def)
      moreover from mid(1,2) have "hd t \<in> set mk"
        by (metis hd_in_set set_mono_suffix subsetD)
      ultimately show ?thesis using mk by (auto simp: runes_def)
    qed
  next
    case (front t)
    then have "sublist mk s" by simp
    with mk line show ?thesis by (auto simp: hasMarker_def)
  qed
qed

text \<open>
  A line that carries one of the two markers, and in which the text \<open>version: \<close> does
  not occur after that marker, is left as it is; the lines before it and the lines after
  it are rewritten as they would be without it. This is what the lookahead is there for.
\<close>

lemma marked_line_kept:
  assumes "line = a @ mk @ c"
    and "mk = runes ''do-not-rewrite'' \<or> mk = runes ''no-rewrite''"
    and "\<not> sublist (runes ''version: '') c"
    and "10 \<notin> set line"
    and "pre = [] \<or> last pre = 10"
    and "post = [] \<or> hd post = 10"
  shows "applyVersionRule version (pre @ line @ post)
           = applyVersionRule version pre @ line @ applyVersionRule version post"
proof -
  have "\<forall>s. suffix s line \<and> prefix (runes ''version: '') s \<longrightarrow> hasMarker s"
    using marker_guards_line [OF assms(1-4)] by blast
  then have "applyVersionRule version line = line"
    by (rule applyVersionRule_guarded_line)
  with applyVersionRule_after_newline [OF assms(5)]
       applyVersionRule_before_newline [OF assms(4,6)]
  show ?thesis by simp
qed

text \<open>
  Claim C4 (a line \<open>version: <value>\<close> that carries a \<open>do-not-rewrite\<close> or
  \<open>no-rewrite\<close> marker comment is left unchanged by the version-key rule) does not hold
  on the code. The line below is of that form and carries the marker comment, and the
  rule changes it: the text \<open>version: \<close> occurs once more after the marker, the
  lookahead finds no marker from there to the end of the line, and that occurrence is
  rewritten, against the comment that stands with the pattern in the source.
\<close>

theorem marked_version_line_rewritten:
  "applyVersionRule (runes ''2.0'')
     (runes ''version: 1.0 # do-not-rewrite, chart version: 1.0'')
     = runes ''version: 1.0 # do-not-rewrite, chart version: 2.0''
   \<and> runes ''version: 1.0 # do-not-rewrite, chart version: 2.0''
     \<noteq> runes ''version: 1.0 # do-not-rewrite, chart version: 1.0''"
  by (simp add: versionRuleMatchesAt_def hasMarker_def restOfLine_def runes_def sublist_code)

end
